theory Spec2Isabelle
  imports Main "HOL-Library.Word"
begin

section \<open>The link inline tool of editor.js\<close>

text \<open>
  A shallow embedding of \<^verbatim>\<open>src/components/inline-tools/inline-tool-link.ts\<close>, the
  class \<^verbatim>\<open>LinkInlineTool\<close>. Each method of the class is a function of the same
  name over a record of the instance's fields. What the class only calls (the document,
  the live selection, the notifier, the toolbars, the triggering event) is outside the
  class: a record of host functions stands for the browser, and every call the tool makes
  to the outside is appended to a list in the order the source makes it. The diagnostic
  output (\<^verbatim>\<open>console.log\<close>, \<^verbatim>\<open>_.log\<close>) is left out.
\<close>

subsection \<open>Strings\<close>

text \<open>
  A JavaScript string is a sequence of 16-bit code units. Regular expressions without the
  \<^verbatim>\<open>u\<close> flag, \<^verbatim>\<open>trim\<close>, \<^verbatim>\<open>substring\<close> and \<^verbatim>\<open>includes\<close> all work on code
  units. \<open>js\<close> writes an ASCII literal as such a string.
\<close>

type_synonym code_unit = "16 word"
type_synonym jsstring = "code_unit list"

definition js :: "string \<Rightarrow> jsstring" where
  "js s = map of_char s"

text \<open>
  The class \<^verbatim>\<open>\s\<close> of a regular expression, which is also what \<^verbatim>\<open>trim\<close> strips:
  ECMAScript's WhiteSpace (TAB, VT, FF, SP, NBSP, ZWNBSP and the Unicode space
  separators) and LineTerminator (LF, CR, LS, PS).
\<close>

definition isWhiteSpace :: "code_unit \<Rightarrow> bool" where
  "isWhiteSpace c \<longleftrightarrow>
     c \<in> {0x09, 0x0A, 0x0B, 0x0C, 0x0D, 0x20, 0xA0, 0x1680,
          0x2028, 0x2029, 0x202F, 0x205F, 0x3000, 0xFEFF}
     \<or> (0x2000 \<le> c \<and> c \<le> 0x200A)"

text \<open>The class \<^verbatim>\<open>\w\<close>: the letters A-Z and a-z, the digits and the underscore.\<close>

definition isWordChar :: "code_unit \<Rightarrow> bool" where
  "isWordChar c \<longleftrightarrow>
     (0x30 \<le> c \<and> c \<le> 0x39) \<or> (0x41 \<le> c \<and> c \<le> 0x5A) \<or> c = 0x5F
     \<or> (0x61 \<le> c \<and> c \<le> 0x7A)"

text \<open>\<^verbatim>\<open>String.prototype.trim\<close>: white space is removed from both ends.\<close>

definition trim :: "jsstring \<Rightarrow> jsstring" where
  "trim s = rev (dropWhile isWhiteSpace (rev (dropWhile isWhiteSpace s)))"

text \<open>\<^verbatim>\<open>s.startsWith(p)\<close>, the meaning of a literal after \<^verbatim>\<open>^\<close> in a pattern.\<close>

definition startsWith :: "jsstring \<Rightarrow> jsstring \<Rightarrow> bool" where
  "startsWith s p \<longleftrightarrow> take (length p) s = p"

text \<open>\<^verbatim>\<open>s.includes(q)\<close>: \<open>q\<close> occurs in \<open>s\<close> at some position.\<close>

fun includes_js :: "jsstring \<Rightarrow> jsstring \<Rightarrow> bool" where
  "includes_js [] q = (q = [])"
| "includes_js (c # cs) q = (startsWith (c # cs) q \<or> includes_js cs q)"

subsection \<open>Validation and preparation of a link\<close>

text \<open>
  \<^verbatim>\<open>validateURL(str)\<close> is \<^verbatim>\<open>!/\s/.test(str)\<close>: the pattern is unanchored, so the test
  succeeds when some code unit of the string is white space.
\<close>

definition validateURL :: "jsstring \<Rightarrow> bool" where
  "validateURL str = (\<not> list_ex isWhiteSpace str)"

text \<open>
  \<^verbatim>\<open>/^(\w+):\/\//.test(link)\<close>: some non-empty run of word characters at the start of
  the string is followed by \<^verbatim>\<open>://\<close>. The matcher tries the runs from the longest to a
  single character; the test asks only whether one of them succeeds.
\<close>

definition hasProtocol :: "jsstring \<Rightarrow> bool" where
  "hasProtocol link =
     list_ex (\<lambda>n. list_all isWordChar (take n link) \<and> startsWith (drop n link) (js ''://''))
       [1 ..< Suc (length link)]"

text \<open>\<^verbatim>\<open>/^\/[^\/\s]/.test(link)\<close>: a slash, then a code unit that is neither a slash nor white space.\<close>

fun isInternal :: "jsstring \<Rightarrow> bool" where
  "isInternal (a # b # rest) = (a = 0x2F \<and> b \<noteq> 0x2F \<and> \<not> isWhiteSpace b)"
| "isInternal link = False"

text \<open>\<^verbatim>\<open>link.substring(0, 1) === '#'\<close>.\<close>

definition isAnchor :: "jsstring \<Rightarrow> bool" where
  "isAnchor link = (take 1 link = js ''#'')"

text \<open>\<^verbatim>\<open>/^\/\/[^\/\s]/.test(link)\<close>: two slashes, then a code unit that is neither a slash nor white space.\<close>

fun isProtocolRelative :: "jsstring \<Rightarrow> bool" where
  "isProtocolRelative (a # b # c # rest) =
     (a = 0x2F \<and> b = 0x2F \<and> c \<noteq> 0x2F \<and> \<not> isWhiteSpace c)"
| "isProtocolRelative link = False"

definition addProtocol :: "jsstring \<Rightarrow> jsstring" where
  "addProtocol link =
     (if hasProtocol link then link
      else if \<not> isInternal link \<and> \<not> isAnchor link \<and> \<not> isProtocolRelative link
           then js ''http://'' @ link
           else link)"

definition prepareLink :: "jsstring \<Rightarrow> jsstring" where
  "prepareLink link = addProtocol (trim link)"

subsection \<open>The data of the tool\<close>

text \<open>A known page, as \<^verbatim>\<open>JSON.parse\<close> yields it from the stored list.\<close>

record page =
  name :: jsstring
  url :: jsstring

text \<open>
  An item of the rendered list: the entry its click listener holds, and whether its class
  list has \<^verbatim>\<open>selected-item\<close>. The children of \<^verbatim>\<open>nodes.ul\<close> are the elements of
  \<^verbatim>\<open>linkElements\<close>, in the same order: \<^verbatim>\<open>renderList\<close> empties and fills both.
\<close>

record li =
  entry :: page
  selected_item :: bool

text \<open>A DOM range is taken by its identity; an anchor element by its identity and by what
  \<^verbatim>\<open>getAttribute('href')\<close> returns for it (\<open>None\<close> is JavaScript's \<^verbatim>\<open>null\<close>).\<close>

datatype range_obj = Range nat

record anchor =
  element :: nat
  href :: "jsstring option"

datatype error = TypeError | SyntaxError

text \<open>
  The calls that leave the class. \<open>command\<close> is what \<^verbatim>\<open>document.execCommand\<close> is
  asked to do (\<^verbatim>\<open>commandLink\<close> with its argument, \<^verbatim>\<open>commandUnlink\<close>); a
  \<open>dom_action\<close> changes the document or the live selection; a \<open>call\<close> is any call to
  the outside, the notifier, the triggering event and the two toolbars included.
\<close>

datatype command = CreateLink jsstring | Unlink

datatype dom_action =
    ExecCommand command
  | AddRange range_obj
  | ExpandToTag anchor
  | CollapseToEnd
  | Focus
  | SetFakeBackground
  | RemoveFakeBackground

datatype call =
    Dom dom_action
  | NotifierShow jsstring jsstring
  | PreventDefault
  | StopPropagation
  | StopImmediatePropagation
  | ToolbarClose
  | InlineToolbarClose

text \<open>
  The browser, over any type \<open>'w\<close> of documents with their live selection:
  \<open>dom_range\<close> reads the live selection, \<open>dom_parentA\<close> is the \<^verbatim>\<open>A\<close> element around
  it, \<open>dom_apply\<close> is the effect of an action, \<open>lowerCase\<close> is
  \<^verbatim>\<open>String.prototype.toLocaleLowerCase\<close> in the host's locale and \<open>json_parse\<close> is
  \<^verbatim>\<open>JSON.parse\<close> read at the type of the page list. The theorems hold for every such
  record.
\<close>

record 'w host =
  dom_range :: "'w \<Rightarrow> range_obj option"
  dom_parentA :: "'w \<Rightarrow> anchor option"
  dom_apply :: "dom_action \<Rightarrow> 'w \<Rightarrow> 'w"
  lowerCase :: "jsstring \<Rightarrow> jsstring"
  json_parse :: "jsstring \<Rightarrow> error + page list"

text \<open>
  Modelled from the spec: the fields of a \<^verbatim>\<open>SelectionUtils\<close> instance (the class
  is imported from \<^verbatim>\<open>../selection\<close> and is not among the sources): the one stored
  Selection Snapshot and the Fake Highlight flag.
\<close>

record selection_utils =
  savedSelectionRange :: "range_obj option"
  isFakeBackgroundEnabled :: bool

text \<open>
  The instance after \<^verbatim>\<open>render()\<close> and \<^verbatim>\<open>renderActions()\<close>, which the host calls
  when it builds the inline toolbar: the fields of \<^verbatim>\<open>nodes\<close> are elements, of which
  the record keeps what the class reads and writes (an input's \<^verbatim>\<open>value\<close>, the
  presence of a class in a \<^verbatim>\<open>classList\<close>). \<open>world\<close> is the document with its live
  selection and \<open>calls\<close> lists the calls made to the outside so far.
\<close>

record 'w link_tool =
  pageLinks :: "page list"
  linkElements :: "li list"
  button_unlink :: bool
  button_active :: bool
  input_value :: jsstring
  input_showed :: bool
  div_showed :: bool
  searchInput_value :: jsstring
  selection :: selection_utils
  inputOpened :: bool
  world :: 'w
  calls :: "call list"

definition ENTER_KEY :: nat where
  "ENTER_KEY = 13"

subsection \<open>Calls to the outside\<close>

definition emit :: "call \<Rightarrow> 'w link_tool \<Rightarrow> 'w link_tool" where
  "emit c s = s\<lparr>calls := calls s @ [c]\<rparr>"

definition perform :: "'w host \<Rightarrow> dom_action \<Rightarrow> 'w link_tool \<Rightarrow> 'w link_tool" where
  "perform H a s = s\<lparr>world := dom_apply H a (world s), calls := calls s @ [Dom a]\<rparr>"

subsection \<open>The selection guard\<close>

text \<open>Modelled from the spec: a new \<^verbatim>\<open>SelectionUtils\<close> instance, which is missing from
  the sources, holds no snapshot and shows no fake highlight.\<close>

definition newSelectionUtils :: selection_utils where
  "newSelectionUtils = \<lparr>savedSelectionRange = None, isFakeBackgroundEnabled = False\<rparr>"

text \<open>Modelled from the spec: \<^verbatim>\<open>SelectionUtils.save\<close>, missing from the sources,
  captures the live selection into the snapshot, overwriting the one before; with no live
  selection it captures nothing.\<close>

definition su_save :: "'w host \<Rightarrow> 'w \<Rightarrow> selection_utils \<Rightarrow> selection_utils" where
  "su_save H w u =
     (case dom_range H w of None \<Rightarrow> u | Some r \<Rightarrow> u\<lparr>savedSelectionRange := Some r\<rparr>)"

text \<open>Modelled from the spec: \<^verbatim>\<open>SelectionUtils.restore\<close>, missing from the sources,
  makes the stored snapshot the live selection and does nothing when none is stored.\<close>

definition su_restore :: "'w host \<Rightarrow> selection_utils \<Rightarrow> 'w link_tool \<Rightarrow> 'w link_tool" where
  "su_restore H u s =
     (case savedSelectionRange u of None \<Rightarrow> s | Some r \<Rightarrow> perform H (AddRange r) s)"

text \<open>The same two operations on \<^verbatim>\<open>this.selection\<close>.\<close>

definition save :: "'w host \<Rightarrow> 'w link_tool \<Rightarrow> 'w link_tool" where
  "save H s = s\<lparr>selection := su_save H (world s) (selection s)\<rparr>"

definition restore :: "'w host \<Rightarrow> 'w link_tool \<Rightarrow> 'w link_tool" where
  "restore H s = su_restore H (selection s) s"

text \<open>Modelled from the spec: \<^verbatim>\<open>SelectionUtils.setFakeBackground\<close>, missing from the
  sources, renders the placeholder over the live selection and sets the flag.\<close>

definition setFakeBackground :: "'w host \<Rightarrow> 'w link_tool \<Rightarrow> 'w link_tool" where
  "setFakeBackground H s =
     (perform H SetFakeBackground s)
       \<lparr>selection := (selection s)\<lparr>isFakeBackgroundEnabled := True\<rparr>\<rparr>"

text \<open>Modelled from the spec: \<^verbatim>\<open>SelectionUtils.removeFakeBackground\<close>, missing from
  the sources, clears the placeholder and the flag and does nothing when no fake
  background is active.\<close>

definition removeFakeBackground :: "'w host \<Rightarrow> 'w link_tool \<Rightarrow> 'w link_tool" where
  "removeFakeBackground H s =
     (if isFakeBackgroundEnabled (selection s)
      then (perform H RemoveFakeBackground s)
             \<lparr>selection := (selection s)\<lparr>isFakeBackgroundEnabled := False\<rparr>\<rparr>
      else s)"

text \<open>Modelled from the spec: \<^verbatim>\<open>SelectionUtils.clearSaved\<close>, missing from the sources,
  discards the stored snapshot.\<close>

definition clearSaved :: "'w link_tool \<Rightarrow> 'w link_tool" where
  "clearSaved s = s\<lparr>selection := (selection s)\<lparr>savedSelectionRange := None\<rparr>\<rparr>"

text \<open>Modelled from the spec: \<^verbatim>\<open>SelectionUtils.findParentTag\<close>, missing from the
  sources and only ever called with \<^verbatim>\<open>'A'\<close>, returns the nearest \<^verbatim>\<open>A\<close> ancestor
  of the live selection, or none.\<close>

definition findParentTag :: "'w host \<Rightarrow> 'w link_tool \<Rightarrow> anchor option" where
  "findParentTag H s = dom_parentA H (world s)"

text \<open>Modelled from the spec: \<^verbatim>\<open>SelectionUtils.expandToTag\<close>, missing from the sources,
  widens the live selection to the contents of the element.\<close>

definition expandToTag :: "'w host \<Rightarrow> anchor \<Rightarrow> 'w link_tool \<Rightarrow> 'w link_tool" where
  "expandToTag H a s = perform H (ExpandToTag a) s"

text \<open>Modelled from the spec: \<^verbatim>\<open>SelectionUtils.collapseToEnd\<close>, missing from the
  sources, collapses the live selection to its end.\<close>

definition collapseToEnd :: "'w host \<Rightarrow> 'w link_tool \<Rightarrow> 'w link_tool" where
  "collapseToEnd H s = perform H CollapseToEnd s"

subsection \<open>The methods of the tool\<close>

definition unlink :: "'w host \<Rightarrow> 'w link_tool \<Rightarrow> 'w link_tool" where
  "unlink H s = perform H (ExecCommand Unlink) s"

definition insertLink :: "'w host \<Rightarrow> jsstring \<Rightarrow> 'w link_tool \<Rightarrow> 'w link_tool" where
  "insertLink H link s =
     (let s = (case findParentTag H s of
                 Some anchorTag \<Rightarrow> expandToTag H anchorTag s
               | None \<Rightarrow> s)
      in perform H (ExecCommand (CreateLink link)) s)"

text \<open>\<^verbatim>\<open>renderList(list)\<close>: the old items are removed and one new item is made per entry,
  in the order of the list; a new item has the class \<^verbatim>\<open>existing-list-item\<close> only.\<close>

definition renderList :: "page list \<Rightarrow> 'w link_tool \<Rightarrow> 'w link_tool" where
  "renderList list s =
     s\<lparr>linkElements := map (\<lambda>each. \<lparr>entry = each, selected_item = False\<rparr>) list\<rparr>"

definition openActions :: "'w host \<Rightarrow> bool \<Rightarrow> 'w link_tool \<Rightarrow> 'w link_tool" where
  "openActions H needFocus s =
     (let s = s\<lparr>div_showed := True, input_showed := True\<rparr>;
          s = (if needFocus then perform H Focus s else s)
      in s\<lparr>inputOpened := True\<rparr>)"

definition closeActions :: "'w host \<Rightarrow> bool \<Rightarrow> 'w link_tool \<Rightarrow> 'w link_tool" where
  "closeActions H clearSavedSelection s =
     (let s = (if isFakeBackgroundEnabled (selection s)
               then (let currentSelection = su_save H (world s) newSelectionUtils;
                         s = restore H s;
                         s = removeFakeBackground H s
                     in su_restore H currentSelection s)
               else s);
          s = s\<lparr>input_showed := False, div_showed := False, input_value := []\<rparr>;
          s = (if clearSavedSelection then clearSaved s else s)
      in s\<lparr>inputOpened := False\<rparr>)"

definition toggleActions :: "'w host \<Rightarrow> 'w link_tool \<Rightarrow> 'w link_tool" where
  "toggleActions H s =
     (if \<not> inputOpened s then openActions H True s else closeActions H False s)"

text \<open>\<^verbatim>\<open>clear()\<close> calls \<^verbatim>\<open>closeActions()\<close>, whose parameter defaults to \<^verbatim>\<open>true\<close>.\<close>

definition clear :: "'w host \<Rightarrow> 'w link_tool \<Rightarrow> 'w link_tool" where
  "clear H s = closeActions H True s"

text \<open>
  The loop \<^verbatim>\<open>this.pageLinks.forEach((page, index) => ...)\<close> of \<^verbatim>\<open>checkState\<close>:
  the item at the page's index gets or loses \<^verbatim>\<open>selected-item\<close>. Where the index is
  past the end of \<^verbatim>\<open>linkElements\<close> the source reads \<^verbatim>\<open>classList\<close> of
  \<^verbatim>\<open>undefined\<close>, which throws a TypeError.
\<close>

fun forEachPage :: "jsstring option \<Rightarrow> page list \<Rightarrow> nat \<Rightarrow> li list \<Rightarrow> error + li list" where
  "forEachPage hrefAttr [] index els = Inr els"
| "forEachPage hrefAttr (page # rest) index els =
     (if index < length els
      then forEachPage hrefAttr rest (Suc index)
             (if Some (url page) = hrefAttr
              then els[index := (els ! index)\<lparr>selected_item := True\<rparr>]
              else els[index := (els ! index)\<lparr>selected_item := False\<rparr>])
      else Inl TypeError)"

text \<open>
  An assignment to \<^verbatim>\<open>this.nodes.input.value\<close>. The element is made by
  \<^verbatim>\<open>document.createElement('input')\<close> and is a text field: its setter stores
  \<^verbatim>\<open>null\<close> as the empty string and removes every line feed and carriage return from
  what it is given.
\<close>

definition inputValue :: "jsstring option \<Rightarrow> jsstring" where
  "inputValue v =
     filter (\<lambda>c. c \<noteq> 0x0A \<and> c \<noteq> 0x0D) (case v of None \<Rightarrow> [] | Some str \<Rightarrow> str)"

text \<open>
  \<^verbatim>\<open>checkState\<close> returns \<^verbatim>\<open>!!anchorTag\<close>. The attribute is compared with the string
  \<^verbatim>\<open>'null'\<close>, and the loop over the pages compares with the attribute, not with what
  the input holds.
\<close>

definition checkState :: "'w host \<Rightarrow> 'w link_tool \<Rightarrow> error + bool \<times> 'w link_tool" where
  "checkState H s =
     (let s = s\<lparr>searchInput_value := []\<rparr>;
          s = renderList (pageLinks s) s
      in case findParentTag H s of
           Some anchorTag \<Rightarrow>
             (let s = s\<lparr>button_unlink := True, button_active := True\<rparr>;
                  s = openActions H False s;
                  hrefAttr = href anchorTag;
                  s = s\<lparr>input_value :=
                         inputValue (if hrefAttr \<noteq> Some (js ''null'') then hrefAttr else Some [])\<rparr>
              in case (if hrefAttr \<noteq> Some (js ''null'')
                       then forEachPage hrefAttr (pageLinks s) 0 (linkElements s)
                       else Inr (map (\<lambda>item. item\<lparr>selected_item := False\<rparr>) (linkElements s))) of
                   Inl e \<Rightarrow> Inl e
                 | Inr els \<Rightarrow> Inr (True, save H (s\<lparr>linkElements := els\<rparr>)))
         | None \<Rightarrow>
             (let s = s\<lparr>button_unlink := False, button_active := False\<rparr>
              in Inr (False,
                   s\<lparr>linkElements := map (\<lambda>item. item\<lparr>selected_item := False\<rparr>) (linkElements s)\<rparr>)))"

text \<open>
  \<^verbatim>\<open>enterPressed(event, isExisting, data)\<close>. The first \<^verbatim>\<open>if\<close> has no
  \<^verbatim>\<open>return\<close>, so the validation and what follows it run after it as well.
\<close>

definition enterPressed :: "'w host \<Rightarrow> bool \<Rightarrow> jsstring \<Rightarrow> 'w link_tool \<Rightarrow> 'w link_tool" where
  "enterPressed H isExisting data s =
     (let value = (if isExisting then data else input_value s);
          s = (if trim value = []
               then (let s = restore H s;
                         s = unlink H s;
                         s = emit PreventDefault s
                     in closeActions H True s)
               else s)
      in if \<not> validateURL value
         then emit (NotifierShow (js ''Pasted link is not valid.'') (js ''error'')) s
         else (let value = prepareLink value;
                   s = restore H s;
                   s = removeFakeBackground H s;
                   s = insertLink H value s;
                   s = emit PreventDefault s;
                   s = emit StopPropagation s;
                   s = emit StopImmediatePropagation s;
                   s = collapseToEnd H s
               in emit InlineToolbarClose s))"

text \<open>The listeners that \<^verbatim>\<open>renderList\<close> and \<^verbatim>\<open>renderActions\<close> attach: a click on a
  list item, a key pressed in the link input, a key released in the search input (the
  browser has put the new text into \<^verbatim>\<open>searchInput.value\<close> by then).\<close>

definition itemClick :: "'w host \<Rightarrow> li \<Rightarrow> 'w link_tool \<Rightarrow> 'w link_tool" where
  "itemClick H item s = enterPressed H True (url (entry item)) s"

definition inputKeydown :: "'w host \<Rightarrow> nat \<Rightarrow> 'w link_tool \<Rightarrow> 'w link_tool" where
  "inputKeydown H keyCode s = (if keyCode = ENTER_KEY then enterPressed H False [] s else s)"

definition searchKeyup :: "'w host \<Rightarrow> 'w link_tool \<Rightarrow> 'w link_tool" where
  "searchKeyup H s =
     (if length (trim (searchInput_value s)) \<noteq> 0
      then (let filtertedList =
                  filter (\<lambda>each. includes_js (lowerCase H (name each)) (trim (searchInput_value s)))
                    (pageLinks s)
            in renderList filtertedList s)
      else renderList (pageLinks s) s)"

text \<open>
  \<^verbatim>\<open>renderActions()\<close>, given what \<^verbatim>\<open>window.localStorage.existingLinks\<close> holds at the
  time of the call (\<open>None\<close> when the item is not set). \<open>storedLinks\<close> is the right-hand
  side of the assignment to \<^verbatim>\<open>this.pageLinks\<close>: an unset or empty item reads as the
  empty list, any other is parsed, and a parse that throws ends the call. The panel's
  elements are made anew: the inputs are empty and the class lists have no
  \<^verbatim>\<open>--showed\<close> class.
\<close>

definition storedLinks :: "'w host \<Rightarrow> jsstring option \<Rightarrow> error + page list" where
  "storedLinks H existingLinks =
     (case existingLinks of
        None \<Rightarrow> Inr []
      | Some stored \<Rightarrow> if stored = [] then Inr [] else json_parse H stored)"

definition renderActions :: "'w host \<Rightarrow> jsstring option \<Rightarrow> 'w link_tool \<Rightarrow> error + 'w link_tool" where
  "renderActions H existingLinks s =
     (case storedLinks H existingLinks of
        Inl e \<Rightarrow> Inl e
      | Inr links \<Rightarrow>
          (let s = s\<lparr>pageLinks := links\<rparr>;
               s = s\<lparr>searchInput_value := []\<rparr>;
               s = renderList (pageLinks s) s
           in Inr (s\<lparr>input_value := [], div_showed := False, input_showed := False\<rparr>)))"

text \<open>\<^verbatim>\<open>render()\<close> makes the button anew, with the classes \<^verbatim>\<open>ce-inline-tool\<close> and
  \<^verbatim>\<open>ce-inline-tool--link\<close> only.\<close>

definition render :: "'w link_tool \<Rightarrow> 'w link_tool" where
  "render s = s\<lparr>button_unlink := False, button_active := False\<rparr>"

text \<open>\<^verbatim>\<open>surround(range)\<close>: the range is \<^verbatim>\<open>null\<close> on the second click on the icon.\<close>

definition surround :: "'w host \<Rightarrow> range_obj option \<Rightarrow> 'w link_tool \<Rightarrow> error + 'w link_tool" where
  "surround H rng s =
     (case rng of
        None \<Rightarrow> Inr (toggleActions H s)
      | Some r \<Rightarrow>
          (let s = (if \<not> inputOpened s
                    then save H (setFakeBackground H s)
                    else removeFakeBackground H (restore H s))
           in case findParentTag H s of
                Some parentAnchor \<Rightarrow>
                  (let s = expandToTag H parentAnchor s;
                       s = unlink H s;
                       s = closeActions H True s
                   in case checkState H s of
                        Inl e \<Rightarrow> Inl e
                      | Inr (b, s) \<Rightarrow> Inr (emit ToolbarClose s))
              | None \<Rightarrow> Inr (toggleActions H s)))"

subsection \<open>Reading the list of calls\<close>

text \<open>The calls made on the way from a state to a later one, and the calls to
  \<^verbatim>\<open>notifier.show\<close> among a state's calls.\<close>

definition made :: "'w link_tool \<Rightarrow> 'w link_tool \<Rightarrow> call list" where
  "made s s' = drop (length (calls s)) (calls s')"

fun isNotification :: "call \<Rightarrow> bool" where
  "isNotification (NotifierShow message style) = True"
| "isNotification c = False"

definition notifications :: "'w link_tool \<Rightarrow> call list" where
  "notifications s = filter isNotification (calls s)"

subsection \<open>The rules of the URL Normalizer, as the spec words them\<close>

text \<open>
  A scheme is what the URL grammar calls one: a letter followed by letters, digits and the
  characters \<^verbatim>\<open>+\<close>, \<^verbatim>\<open>-\<close> and \<^verbatim>\<open>.\<close>, as in \<^verbatim>\<open>http\<close>, \<^verbatim>\<open>git+ssh\<close> and
  \<^verbatim>\<open>chrome-extension\<close>. No scheme has a colon in it, so a string begins with
  \<^verbatim>\<open><scheme>://\<close> when the text before its first colon is a scheme and that colon
  starts \<^verbatim>\<open>://\<close>.
\<close>

definition isAlpha :: "code_unit \<Rightarrow> bool" where
  "isAlpha c \<longleftrightarrow> (0x41 \<le> c \<and> c \<le> 0x5A) \<or> (0x61 \<le> c \<and> c \<le> 0x7A)"

definition isDigit :: "code_unit \<Rightarrow> bool" where
  "isDigit c \<longleftrightarrow> 0x30 \<le> c \<and> c \<le> 0x39"

definition isSchemeChar :: "code_unit \<Rightarrow> bool" where
  "isSchemeChar c \<longleftrightarrow> isAlpha c \<or> isDigit c \<or> c = 0x2B \<or> c = 0x2D \<or> c = 0x2E"

fun isScheme :: "jsstring \<Rightarrow> bool" where
  "isScheme [] = False"
| "isScheme (c # cs) = (isAlpha c \<and> list_all isSchemeChar cs)"

definition schemePart :: "jsstring \<Rightarrow> jsstring" where
  "schemePart s = takeWhile (\<lambda>c. c \<noteq> 0x3A) s"

definition schemeSeparated :: "jsstring \<Rightarrow> bool" where
  "schemeSeparated s \<longleftrightarrow> startsWith (dropWhile (\<lambda>c. c \<noteq> 0x3A) s) (js ''://'')"

definition beginsWithScheme :: "jsstring \<Rightarrow> bool" where
  "beginsWithScheme s \<longleftrightarrow> isScheme (schemePart s) \<and> schemeSeparated s"

text \<open>
  The code's test for a protocol takes a run of letters, digits and underscores for the
  scheme. The two readings give the same answer on a string unless it has \<^verbatim>\<open>://\<close> at
  its first colon and the text before it is a scheme with \<^verbatim>\<open>+\<close>, \<^verbatim>\<open>-\<close> or
  \<^verbatim>\<open>.\<close> in it, or a run of word characters that is no scheme (it starts with a digit
  or has an underscore).
\<close>

definition isWordRun :: "jsstring \<Rightarrow> bool" where
  "isWordRun w \<longleftrightarrow> w \<noteq> [] \<and> list_all isWordChar w"

definition schemeReadAlike :: "jsstring \<Rightarrow> bool" where
  "schemeReadAlike s =
     (if schemeSeparated s then isScheme (schemePart s) = isWordRun (schemePart s) else True)"

text \<open>
  \<open>normalize_spec\<close> follows the five rules of the spec in their order. Its fourth rule
  is the spec's: two slashes followed by a character that is not a slash.
\<close>

definition normalize_spec :: "jsstring \<Rightarrow> jsstring" where
  "normalize_spec raw =
     (let s = trim raw in
      if beginsWithScheme s then s
      else if startsWith s (js ''/'') \<and> 1 < length s \<and> s ! 1 \<noteq> 0x2F \<and> \<not> isWhiteSpace (s ! 1)
        then s
      else if startsWith s (js ''#'') then s
      else if startsWith s (js ''//'') \<and> 2 < length s \<and> s ! 2 \<noteq> 0x2F then s
      else js ''http://'' @ s)"

text \<open>
  \<open>normalize_rules\<close> differs in the fourth rule only: the character after the two
  slashes is neither a slash nor white space. Its first rule is the spec's.
\<close>

definition normalize_rules :: "jsstring \<Rightarrow> jsstring" where
  "normalize_rules raw =
     (let s = trim raw in
      if beginsWithScheme s then s
      else if startsWith s (js ''/'') \<and> 1 < length s \<and> s ! 1 \<noteq> 0x2F \<and> \<not> isWhiteSpace (s ! 1)
        then s
      else if startsWith s (js ''#'') then s
      else if startsWith s (js ''//'') \<and> 2 < length s \<and> s ! 2 \<noteq> 0x2F \<and> \<not> isWhiteSpace (s ! 2)
        then s
      else js ''http://'' @ s)"

subsection \<open>A small browser for worked examples\<close>

text \<open>
  A document with one piece of text, which is inside a link or not, and a live selection
  that is in the text or nowhere (the focus is in an input). Linking and unlinking act on
  the text when it is selected; restoring a range selects the text; focusing the input
  takes the selection away. Lower case is taken on the letters A to Z, and the one stored
  item that parses holds the Home page.
\<close>

record doc =
  live :: "range_obj option"
  link :: "anchor option"

fun applyAction :: "dom_action \<Rightarrow> doc \<Rightarrow> doc" where
  "applyAction (ExecCommand (CreateLink target)) d =
     (if live d = None then d else d\<lparr>link := Some \<lparr>element = 1, href = Some target\<rparr>\<rparr>)"
| "applyAction (ExecCommand Unlink) d = (if live d = None then d else d\<lparr>link := None\<rparr>)"
| "applyAction (AddRange r) d = d\<lparr>live := Some r\<rparr>"
| "applyAction Focus d = d\<lparr>live := None\<rparr>"
| "applyAction a d = d"

definition homePage :: page where
  "homePage = \<lparr>name = js ''Home'', url = js ''/''\<rparr>"

definition aboutPage :: page where
  "aboutPage = \<lparr>name = js ''About'', url = js ''/about''\<rparr>"

definition testHost :: "doc host" where
  "testHost =
     \<lparr>dom_range = live,
      dom_parentA = (\<lambda>d. if live d = None then None else link d),
      dom_apply = applyAction,
      lowerCase = map (\<lambda>c. if 0x41 \<le> c \<and> c \<le> 0x5A then c + 0x20 else c),
      json_parse = (\<lambda>stored. if stored = js ''[home]'' then Inr [homePage] else Inl SyntaxError)\<rparr>"

text \<open>The text is selected and lies in a link to the About page.\<close>

definition linkedDoc :: doc where
  "linkedDoc = \<lparr>live = Some (Range 1), link = Some \<lparr>element = 1, href = Some (js ''/about'')\<rparr>\<rparr>"

text \<open>The text is selected and lies in a link whose \<^verbatim>\<open>href\<close> has a line feed in it,
  as the character reference \<^verbatim>\<open>&#10;\<close> puts one into an attribute.\<close>

definition lineBreakDoc :: doc where
  "lineBreakDoc =
     \<lparr>live = Some (Range 1),
      link = Some \<lparr>element = 1, href = Some (js ''/a'' @ [0x0A] @ js ''b'')\<rparr>\<rparr>"

text \<open>A tool over a document as \<^verbatim>\<open>render()\<close> and \<^verbatim>\<open>renderActions()\<close> leave it when the
  two pages are stored: the panel is closed and nothing is saved.\<close>

definition rendered :: "doc \<Rightarrow> doc link_tool" where
  "rendered d =
     \<lparr>pageLinks = [homePage, aboutPage],
      linkElements = [\<lparr>entry = homePage, selected_item = False\<rparr>,
                      \<lparr>entry = aboutPage, selected_item = False\<rparr>],
      button_unlink = False, button_active = False,
      input_value = [], input_showed = False, div_showed = False,
      searchInput_value = [],
      selection = newSelectionUtils,
      inputOpened = False,
      world = d, calls = []\<rparr>"

text \<open>The panel is open on the link of \<open>linkedDoc\<close>: the selection is saved, the focus is
  in the link input and the input holds the given text.\<close>

definition editing :: "jsstring \<Rightarrow> doc link_tool" where
  "editing text =
     (rendered (linkedDoc\<lparr>live := None\<rparr>))
       \<lparr>button_unlink := True, button_active := True,
        input_value := text, input_showed := True, div_showed := True,
        selection := \<lparr>savedSelectionRange = Some (Range 1), isFakeBackgroundEnabled = False\<rparr>,
        inputOpened := True\<rparr>"

section \<open>Properties of the URL Normalizer\<close>

subsection \<open>Trimming\<close>

lemma trim_decomp: "\<exists>z. dropWhile isWhiteSpace s = trim s @ z"
proof -
  let ?a = "dropWhile isWhiteSpace s"
  have "rev ?a = takeWhile isWhiteSpace (rev ?a) @ dropWhile isWhiteSpace (rev ?a)" by simp
  then have "rev (rev ?a) = rev (takeWhile isWhiteSpace (rev ?a) @ dropWhile isWhiteSpace (rev ?a))"
    by simp
  then have "?a = rev (dropWhile isWhiteSpace (rev ?a)) @ rev (takeWhile isWhiteSpace (rev ?a))"
    by (simp only: rev_rev_ident rev_append)
  then show ?thesis unfolding trim_def by blast
qed

lemma trim_hd:
  assumes "trim s \<noteq> []"
  shows "\<not> isWhiteSpace (hd (trim s))"
proof -
  obtain z where z: "dropWhile isWhiteSpace s = trim s @ z" using trim_decomp by blast
  with assms have "dropWhile isWhiteSpace s \<noteq> []" by simp
  then have "\<not> isWhiteSpace (hd (dropWhile isWhiteSpace s))" by (rule hd_dropWhile)
  with z assms show ?thesis by simp
qed

lemma trim_last:
  assumes "trim s \<noteq> []"
  shows "\<not> isWhiteSpace (last (trim s))"
proof -
  let ?x = "dropWhile isWhiteSpace (rev (dropWhile isWhiteSpace s))"
  from assms have "?x \<noteq> []" by (simp add: trim_def)
  then have "\<not> isWhiteSpace (hd ?x)" by (rule hd_dropWhile)
  moreover have "last (trim s) = hd ?x" using \<open>?x \<noteq> []\<close> by (simp add: trim_def last_rev)
  ultimately show ?thesis by simp
qed

lemma trim_fix:
  assumes "s = [] \<or> (\<not> isWhiteSpace (hd s) \<and> \<not> isWhiteSpace (last s))"
  shows "trim s = s"
proof (cases s)
  case Nil
  then show ?thesis by (simp add: trim_def)
next
  case (Cons c cs)
  with assms have h: "\<not> isWhiteSpace (hd s)" and l: "\<not> isWhiteSpace (last s)" by auto
  from h Cons have d: "dropWhile isWhiteSpace s = s" by simp
  obtain x xs where rs: "rev s = x # xs" using Cons by (cases "rev s") auto
  have "hd (rev s) = last s" using Cons by (simp add: hd_rev)
  with rs have "x = last s" by simp
  with l have "dropWhile isWhiteSpace (x # xs) = x # xs" by simp
  then have "dropWhile isWhiteSpace (rev s) = rev s" by (simp only: rs)
  with d show ?thesis by (simp add: trim_def)
qed

lemma trim_idem: "trim (trim s) = trim s"
  by (rule trim_fix) (use trim_hd trim_last in blast)

lemma trim_Nil_iff: "trim s = [] \<longleftrightarrow> list_all isWhiteSpace s"
proof
  assume "trim s = []"
  then have a: "\<forall>c \<in> set (dropWhile isWhiteSpace s). isWhiteSpace c"
    by (simp add: trim_def dropWhile_eq_Nil_conv)
  have "dropWhile isWhiteSpace s = []"
  proof (rule ccontr)
    assume n: "dropWhile isWhiteSpace s \<noteq> []"
    then have "\<not> isWhiteSpace (hd (dropWhile isWhiteSpace s))" by (rule hd_dropWhile)
    with a n show False by (meson hd_in_set)
  qed
  then show "list_all isWhiteSpace s" by (simp add: dropWhile_eq_Nil_conv list_all_iff)
next
  assume "list_all isWhiteSpace s"
  then have d: "dropWhile isWhiteSpace s = []" by (simp add: dropWhile_eq_Nil_conv list_all_iff)
  show "trim s = []" unfolding trim_def d by simp
qed

lemma trim_keeps_prefix:
  assumes "p \<noteq> []" "\<not> isWhiteSpace (hd p)" "\<not> isWhiteSpace (last p)"
  shows "\<exists>y. trim (p @ r) = p @ y"
proof -
  from assms(1,2) have d: "dropWhile isWhiteSpace (p @ r) = p @ r"
    by (cases p) auto
  have "\<exists>x. dropWhile isWhiteSpace (rev r @ rev p) = x @ rev p"
  proof (cases "\<forall>c \<in> set (rev r). isWhiteSpace c")
    case True
    then have "\<And>c. c \<in> set (rev r) \<Longrightarrow> isWhiteSpace c" by blast
    then have "dropWhile isWhiteSpace (rev r @ rev p) = dropWhile isWhiteSpace (rev p)"
      by (rule dropWhile_append2)
    moreover have "dropWhile isWhiteSpace (rev p) = rev p"
      using assms(1,3) by (cases p rule: rev_cases) auto
    ultimately show ?thesis by (intro exI[of _ "[]"]) simp
  next
    case False
    then obtain c where "c \<in> set (rev r)" "\<not> isWhiteSpace c" by blast
    then have "dropWhile isWhiteSpace (rev r @ rev p) = dropWhile isWhiteSpace (rev r) @ rev p"
      by (intro dropWhile_append1)
    then show ?thesis by blast
  qed
  then obtain x where "dropWhile isWhiteSpace (rev (p @ r)) = x @ rev p" by auto
  then have "trim (p @ r) = p @ rev x" using d by (simp add: trim_def)
  then show ?thesis by blast
qed

subsection \<open>The protocol test\<close>

lemma colon_not_word: "\<not> isWordChar 0x3A"
  by (simp add: isWordChar_def)

lemma word_not_space: "isWordChar c \<Longrightarrow> \<not> isWhiteSpace c"
  unfolding isWordChar_def isWhiteSpace_def word_le_nat_alt by auto

lemma slash_not_space: "\<not> isWhiteSpace 0x2F"
  by (simp add: isWhiteSpace_def)

lemma js_scheme_sep: "js ''://'' = [0x3A, 0x2F, 0x2F]"
  by (simp add: js_def)

text \<open>A match of \<^verbatim>\<open>\w+\<close> that is followed by a colon is the longest run of word
  characters, since the colon is not one.\<close>

lemma hasProtocol_takeWhile:
  "hasProtocol s \<longleftrightarrow>
     takeWhile isWordChar s \<noteq> [] \<and> startsWith (dropWhile isWordChar s) (js ''://'')"
proof
  assume "hasProtocol s"
  then obtain n where n: "1 \<le> n" "n \<le> length s" "list_all isWordChar (take n s)"
      "startsWith (drop n s) (js ''://'')"
    by (auto simp: hasProtocol_def list_ex_iff)
  from n(4) obtain r where r: "drop n s = 0x3A # r"
    by (cases "drop n s") (auto simp: startsWith_def js_scheme_sep)
  have s: "s = take n s @ drop n s" by simp
  have tw: "takeWhile isWordChar s = take n s"
    using n(3) r colon_not_word
    by (subst s, subst takeWhile_append2) (auto simp: list_all_iff)
  have dw: "dropWhile isWordChar s = drop n s"
    using n(3) r colon_not_word
    by (subst s, subst dropWhile_append2) (auto simp: list_all_iff)
  from n(1,2) have "take n s \<noteq> []" by auto
  with tw dw n(4)
  show "takeWhile isWordChar s \<noteq> [] \<and> startsWith (dropWhile isWordChar s) (js ''://'')"
    by simp
next
  assume a: "takeWhile isWordChar s \<noteq> [] \<and> startsWith (dropWhile isWordChar s) (js ''://'')"
  let ?n = "length (takeWhile isWordChar s)"
  have 1: "1 \<le> ?n" using a by (cases "takeWhile isWordChar s") auto
  have 2: "?n \<le> length s" by (rule length_takeWhile_le)
  have 3: "take ?n s = takeWhile isWordChar s" by (rule takeWhile_eq_take[symmetric])
  have 4: "drop ?n s = dropWhile isWordChar s" by (rule dropWhile_eq_drop[symmetric])
  have "list_all isWordChar (take ?n s)"
    unfolding 3 by (auto simp: list_all_iff dest: set_takeWhileD)
  moreover have "startsWith (drop ?n s) (js ''://'')" using a 4 by simp
  moreover have "?n \<in> set [1 ..< Suc (length s)]" using 1 2 by auto
  ultimately show "hasProtocol s"
    unfolding hasProtocol_def list_ex_iff by blast
qed

lemma hasProtocol_decomp:
  "hasProtocol s \<longleftrightarrow> (\<exists>w r. w \<noteq> [] \<and> list_all isWordChar w \<and> s = w @ js ''://'' @ r)"
proof
  assume "hasProtocol s"
  then have tw: "takeWhile isWordChar s \<noteq> []"
    and sw: "startsWith (dropWhile isWordChar s) (js ''://'')"
    by (simp_all add: hasProtocol_takeWhile)
  let ?d = "dropWhile isWordChar s"
  have "length (js ''://'') = 3" by (simp add: js_def)
  with sw have "take 3 ?d = js ''://''" by (simp add: startsWith_def)
  then have "?d = js ''://'' @ drop 3 ?d" by (metis append_take_drop_id)
  then have "s = takeWhile isWordChar s @ js ''://'' @ drop 3 ?d"
    by (metis takeWhile_dropWhile_id)
  moreover have "list_all isWordChar (takeWhile isWordChar s)"
    by (auto simp: list_all_iff dest: set_takeWhileD)
  ultimately show "\<exists>w r. w \<noteq> [] \<and> list_all isWordChar w \<and> s = w @ js ''://'' @ r"
    using tw by blast
next
  assume "\<exists>w r. w \<noteq> [] \<and> list_all isWordChar w \<and> s = w @ js ''://'' @ r"
  then obtain w r where w: "w \<noteq> []" "list_all isWordChar w" and s: "s = w @ js ''://'' @ r"
    by blast
  have "takeWhile isWordChar s = w"
    unfolding s using w(2) colon_not_word by (simp add: list_all_iff js_scheme_sep)
  moreover have "dropWhile isWordChar s = js ''://'' @ r"
    unfolding s using w(2) colon_not_word by (simp add: list_all_iff js_scheme_sep)
  ultimately show "hasProtocol s"
    using w(1) by (simp add: hasProtocol_takeWhile startsWith_def js_def)
qed

lemma hasProtocol_trim:
  assumes "hasProtocol s"
  shows "hasProtocol (trim s)"
proof -
  from assms obtain w r where w: "w \<noteq> []" "list_all isWordChar w" and s: "s = w @ js ''://'' @ r"
    unfolding hasProtocol_decomp by blast
  let ?p = "w @ js ''://''"
  have h0: "?p \<noteq> []" using w by simp
  have h1: "\<not> isWhiteSpace (hd ?p)"
    using w by (cases w) (auto dest: word_not_space)
  have h2: "\<not> isWhiteSpace (last ?p)" by (simp add: js_def slash_not_space)
  from trim_keeps_prefix[OF h0 h1 h2, of r] obtain y where "trim (?p @ r) = ?p @ y"
    by blast
  then have "trim s = w @ js ''://'' @ y" by (simp add: s)
  with w show ?thesis unfolding hasProtocol_decomp by blast
qed

lemma hasProtocol_http: "hasProtocol (js ''http://'' @ t)"
proof -
  have "js ''http://'' @ t = js ''http'' @ js ''://'' @ t" by (simp add: js_def)
  moreover have "list_all isWordChar (js ''http'')" by (simp add: js_def isWordChar_def)
  moreover have "js ''http'' \<noteq> []" by (simp add: js_def)
  ultimately show ?thesis unfolding hasProtocol_decomp by blast
qed

subsection \<open>Adding the protocol\<close>

lemma addProtocol_rules:
  "addProtocol s =
     (if hasProtocol s then s
      else if startsWith s (js ''/'') \<and> 1 < length s \<and> s ! 1 \<noteq> 0x2F \<and> \<not> isWhiteSpace (s ! 1)
        then s
      else if startsWith s (js ''#'') then s
      else if startsWith s (js ''//'') \<and> 2 < length s \<and> s ! 2 \<noteq> 0x2F \<and> \<not> isWhiteSpace (s ! 2)
        then s
      else js ''http://'' @ s)"
proof (cases "hasProtocol s")
  case True
  then show ?thesis by (simp add: addProtocol_def)
next
  case False
  have i: "isInternal s \<longleftrightarrow>
      startsWith s (js ''/'') \<and> 1 < length s \<and> s ! 1 \<noteq> 0x2F \<and> \<not> isWhiteSpace (s ! 1)"
    by (cases s rule: isInternal.cases) (auto simp: startsWith_def js_def)
  have a: "isAnchor s \<longleftrightarrow> startsWith s (js ''#'')"
    by (simp add: isAnchor_def startsWith_def js_def)
  have p: "isProtocolRelative s \<longleftrightarrow>
      startsWith s (js ''//'') \<and> 2 < length s \<and> s ! 2 \<noteq> 0x2F \<and> \<not> isWhiteSpace (s ! 2)"
    by (cases s rule: isProtocolRelative.cases) (auto simp: startsWith_def js_def)
  show ?thesis using False unfolding addProtocol_def i a p by auto
qed

text \<open>The code's test in the terms of the text before the first colon: it is a run of
  word characters, and the colon starts \<^verbatim>\<open>://\<close>.\<close>

lemma hasProtocol_schemePart: "hasProtocol s \<longleftrightarrow> isWordRun (schemePart s) \<and> schemeSeparated s"
proof
  assume "hasProtocol s"
  then obtain w r where w: "w \<noteq> []" "list_all isWordChar w" and s: "s = w @ js ''://'' @ r"
    unfolding hasProtocol_decomp by blast
  have nc: "\<And>c. c \<in> set w \<Longrightarrow> c \<noteq> 0x3A"
    using w(2) colon_not_word by (auto simp: list_all_iff)
  have "takeWhile (\<lambda>c. c \<noteq> 0x3A) s = w"
    unfolding s using nc by (simp add: js_scheme_sep)
  moreover have "dropWhile (\<lambda>c. c \<noteq> 0x3A) s = js ''://'' @ r"
    unfolding s using nc by (simp add: js_scheme_sep)
  ultimately show "isWordRun (schemePart s) \<and> schemeSeparated s"
    using w by (simp add: isWordRun_def schemePart_def schemeSeparated_def startsWith_def js_def)
next
  assume a: "isWordRun (schemePart s) \<and> schemeSeparated s"
  let ?d = "dropWhile (\<lambda>c. c \<noteq> 0x3A) s"
  have "length (js ''://'') = 3" by (simp add: js_def)
  with a have "take 3 ?d = js ''://''" by (simp add: schemeSeparated_def startsWith_def)
  then have "?d = js ''://'' @ drop 3 ?d" by (metis append_take_drop_id)
  then have "s = schemePart s @ js ''://'' @ drop 3 ?d"
    unfolding schemePart_def by (metis takeWhile_dropWhile_id)
  with a show "hasProtocol s"
    unfolding hasProtocol_decomp isWordRun_def by blast
qed

lemma hasProtocol_alike: "schemeReadAlike s \<Longrightarrow> hasProtocol s \<longleftrightarrow> beginsWithScheme s"
  by (auto simp: hasProtocol_schemePart beginsWithScheme_def schemeReadAlike_def split: if_splits)

lemma prepareLink_rules: "schemeReadAlike (trim s) \<Longrightarrow> prepareLink s = normalize_rules s"
  unfolding prepareLink_def normalize_rules_def Let_def
  by (subst addProtocol_rules) (simp add: hasProtocol_alike)

text \<open>A submitted value reaches \<^verbatim>\<open>prepareLink\<close> only after \<^verbatim>\<open>validateURL\<close>: it has no
  white space, so trimming leaves it as it is.\<close>

lemma trim_valid: "validateURL s \<Longrightarrow> trim s = s"
proof (rule trim_fix)
  assume v: "validateURL s"
  show "s = [] \<or> (\<not> isWhiteSpace (hd s) \<and> \<not> isWhiteSpace (last s))"
  proof (cases "s = []")
    case True
    then show ?thesis by simp
  next
    case False
    then have "hd s \<in> set s" "last s \<in> set s" by simp_all
    with v show ?thesis by (auto simp: validateURL_def list_ex_iff)
  qed
qed

lemma prepareLink_valid_word_scheme:
  "validateURL s \<Longrightarrow> hasProtocol s \<Longrightarrow> prepareLink s = s"
  by (simp add: prepareLink_def trim_valid addProtocol_def)

lemma prepareLink_hasProtocol: "hasProtocol s \<Longrightarrow> prepareLink s = trim s"
  by (simp add: prepareLink_def addProtocol_def hasProtocol_trim)

lemma addProtocol_idem: "addProtocol (addProtocol s) = addProtocol s"
  by (simp add: addProtocol_def hasProtocol_http)

lemma trim_http:
  assumes "trim t = t"
  shows "trim (js ''http://'' @ t) = js ''http://'' @ t"
proof (rule trim_fix, rule disjI2, rule conjI)
  show "\<not> isWhiteSpace (hd (js ''http://'' @ t))" by (simp add: js_def isWhiteSpace_def)
  show "\<not> isWhiteSpace (last (js ''http://'' @ t))"
  proof (cases "t = []")
    case True
    then show ?thesis by (simp add: js_def isWhiteSpace_def)
  next
    case False
    then have "trim t \<noteq> []" using assms by simp
    then have "\<not> isWhiteSpace (last (trim t))" by (rule trim_last)
    with False assms show ?thesis by simp
  qed
qed

lemma prepareLink_idem: "prepareLink (prepareLink s) = prepareLink s"
proof -
  let ?t = "trim s"
  have tt: "trim ?t = ?t" by (rule trim_idem)
  show ?thesis
  proof (cases "addProtocol ?t = ?t")
    case True
    then show ?thesis by (simp add: prepareLink_def tt)
  next
    case False
    then have a: "addProtocol ?t = js ''http://'' @ ?t"
      by (auto simp: addProtocol_def split: if_splits)
    have "trim (addProtocol ?t) = addProtocol ?t"
      unfolding a using tt by (rule trim_http)
    then show ?thesis by (simp add: prepareLink_def addProtocol_idem)
  qed
qed

lemma blank_invalid: "s \<noteq> [] \<Longrightarrow> trim s = [] \<Longrightarrow> \<not> validateURL s"
  by (cases s) (auto simp: trim_Nil_iff validateURL_def)

lemma prepareLink_examples:
  "prepareLink (js ''vc.ru'') = js ''http://vc.ru''"
  "prepareLink (js ''/general'') = js ''/general''"
  "prepareLink (js ''#results'') = js ''#results''"
  "prepareLink (js ''//google.com'') = js ''//google.com''"
  "prepareLink (js ''  example.com  '') = js ''http://example.com''"
  by code_simp+

subsection \<open>The rules of \<open>normalize\<close>\<close>

lemma schemeReadAlike_no_separator: "\<not> schemeSeparated s \<Longrightarrow> schemeReadAlike s"
  by (simp add: schemeReadAlike_def)

text \<open>A scheme of letters and digits only, such as \<^verbatim>\<open>http\<close>, \<^verbatim>\<open>https\<close> or
  \<^verbatim>\<open>ftp\<close>, is read alike.\<close>

lemma schemeReadAlike_letters_digits:
  assumes "schemePart s = c # cs" "isAlpha c" "list_all (\<lambda>x. isAlpha x \<or> isDigit x) cs"
  shows "schemeReadAlike s"
proof -
  have a: "\<And>x. isAlpha x \<Longrightarrow> isWordChar x"
    by (auto simp: isAlpha_def isWordChar_def)
  have d: "\<And>x. isDigit x \<Longrightarrow> isWordChar x"
    by (auto simp: isDigit_def isWordChar_def)
  from assms have "isScheme (schemePart s)"
    by (auto simp: list_all_iff isSchemeChar_def)
  moreover from assms a d have "isWordRun (schemePart s)"
    by (auto simp: list_all_iff isWordRun_def)
  ultimately show ?thesis by (simp add: schemeReadAlike_def)
qed

text \<open>
  C5, as the spec states it: \<open>normalize\<close> trims and then applies the five rules of
  \<open>normalize_spec\<close> in their order. This fails on \<^verbatim>\<open>"// x"\<close>: two slashes followed by a
  space, which is not a slash. The spec's fourth rule returns the string unchanged; the
  pattern \<^verbatim>\<open>/^\/\/[^\/\s]/\<close> does not match, and the code prefixes \<^verbatim>\<open>http://\<close>. It
  fails as well on \<^verbatim>\<open>git+ssh://host/x\<close>, which passes \<^verbatim>\<open>validateURL\<close> and begins
  with a scheme: the first rule returns it unchanged, and the code, whose pattern
  \<^verbatim>\<open>\w+\<close> does not take the \<^verbatim>\<open>+\<close>, prefixes \<^verbatim>\<open>http://\<close>.
\<close>

theorem prepareLink_differs_from_spec_rule:
  "prepareLink (js ''// x'') = js ''http://// x'' \<and>
   normalize_spec (js ''// x'') = js ''// x'' \<and>
   prepareLink (js ''// x'') \<noteq> normalize_spec (js ''// x'') \<and>
   validateURL (js ''git+ssh://host/x'') \<and>
   prepareLink (js ''git+ssh://host/x'') = js ''http://git+ssh://host/x'' \<and>
   normalize_spec (js ''git+ssh://host/x'') = js ''git+ssh://host/x''"
  by code_simp

text \<open>
  C5, amended: \<open>normalize\<close> (\<^verbatim>\<open>prepareLink\<close>) trims the string. On every input whose
  trimmed text is read alike by the scheme grammar and by the code (\<open>schemeReadAlike\<close>:
  no \<^verbatim>\<open>://\<close> at the first colon, or before it a scheme of letters and digits only, or
  before it neither a scheme nor a run of letters, digits and underscores) it then
  applies these rules in order: a string beginning with \<^verbatim>\<open><scheme>://\<close> is returned
  unchanged; else a string beginning with a single slash followed by a character that is
  neither a slash nor white space is returned unchanged; else a string beginning with
  \<^verbatim>\<open>#\<close> is returned unchanged; else a string beginning with two slashes followed by a
  character that is neither a slash nor white space is returned unchanged; else the string
  is prefixed with \<^verbatim>\<open>http://\<close>. The five examples of the spec hold. What the code does
  where the two readings of the scheme differ is left to C9.
\<close>

theorem prepareLink_follows_rules:
  "(schemeReadAlike (trim raw) \<longrightarrow> prepareLink raw = normalize_rules raw) \<and>
   prepareLink (js ''vc.ru'') = js ''http://vc.ru'' \<and>
   prepareLink (js ''/general'') = js ''/general'' \<and>
   prepareLink (js ''#results'') = js ''#results'' \<and>
   prepareLink (js ''//google.com'') = js ''//google.com'' \<and>
   prepareLink (js ''  example.com  '') = js ''http://example.com''"
  using prepareLink_rules prepareLink_examples by simp

theorem prepareLink_follows_rules_witness:
  "schemeReadAlike (trim (js ''// x'')) \<and>
   prepareLink (js ''// x'') = normalize_rules (js ''// x'') \<and>
   normalize_rules (js ''// x'') = js ''http://// x'' \<and>
   schemeReadAlike (trim (js '' https://codex.so '')) \<and>
   prepareLink (js '' https://codex.so '') = normalize_rules (js '' https://codex.so '') \<and>
   normalize_rules (js '' https://codex.so '') = js ''https://codex.so''"
proof -
  have a: "schemeReadAlike (trim (js ''// x''))" by code_simp
  have b: "normalize_rules (js ''// x'') = js ''http://// x''" by code_simp
  have c: "schemeReadAlike (trim (js '' https://codex.so ''))" by code_simp
  have d: "normalize_rules (js '' https://codex.so '') = js ''https://codex.so''" by code_simp
  from prepareLink_follows_rules[of "js ''// x''"] a
  have "prepareLink (js ''// x'') = normalize_rules (js ''// x'')" by blast
  moreover from prepareLink_follows_rules[of "js '' https://codex.so ''"] c
  have "prepareLink (js '' https://codex.so '') = normalize_rules (js '' https://codex.so '')"
    by blast
  ultimately show ?thesis using a b c d by blast
qed

subsection \<open>Strings that begin with a scheme\<close>

text \<open>
  C9: a string that begins with an explicit scheme is not always returned unchanged. The
  comment of \<^verbatim>\<open>addProtocol\<close> reads \<^verbatim>\<open>If protocol already exists, do nothing\<close>, and its
  pattern \<^verbatim>\<open>/^(\w+):\/\//\<close> takes letters, digits and underscores only: a scheme with
  \<^verbatim>\<open>+\<close>, \<^verbatim>\<open>-\<close> or \<^verbatim>\<open>.\<close> is not found. \<^verbatim>\<open>git+ssh://host/x\<close> and
  \<^verbatim>\<open>chrome-extension://abc\<close> begin with a scheme and pass \<^verbatim>\<open>validateURL\<close>, and both
  get \<^verbatim>\<open>http://\<close> put in front; Enter pressed with the first in the link input links
  the text to \<^verbatim>\<open>http://git+ssh://host/x\<close>.
\<close>

theorem prepareLink_prefixes_compound_scheme:
  "beginsWithScheme (js ''git+ssh://host/x'') \<and>
   validateURL (js ''git+ssh://host/x'') \<and>
   prepareLink (js ''git+ssh://host/x'') = js ''http://git+ssh://host/x'' \<and>
   beginsWithScheme (js ''chrome-extension://abc'') \<and>
   validateURL (js ''chrome-extension://abc'') \<and>
   prepareLink (js ''chrome-extension://abc'') = js ''http://chrome-extension://abc'' \<and>
   link (world (enterPressed testHost False [] (editing (js ''git+ssh://host/x'')))) =
     Some \<lparr>element = 1, href = Some (js ''http://git+ssh://host/x'')\<rparr>"
proof -
  have a: "beginsWithScheme (js ''git+ssh://host/x'')" by code_simp
  have b: "validateURL (js ''git+ssh://host/x'')" by code_simp
  have c: "prepareLink (js ''git+ssh://host/x'') = js ''http://git+ssh://host/x''" by code_simp
  have d: "beginsWithScheme (js ''chrome-extension://abc'')" by code_simp
  have e: "validateURL (js ''chrome-extension://abc'')" by code_simp
  have f: "prepareLink (js ''chrome-extension://abc'') = js ''http://chrome-extension://abc''"
    by code_simp
  have t: "trim (js ''git+ssh://host/x'') \<noteq> []" using b by (simp add: trim_valid js_def)
  have g: "link (world (enterPressed testHost False [] (editing (js ''git+ssh://host/x'')))) =
     Some \<lparr>element = 1, href = Some (js ''http://git+ssh://host/x'')\<rparr>"
    using b c t
    by (simp add: enterPressed_def Let_def emit_def restore_def su_restore_def
        perform_def removeFakeBackground_def insertLink_def findParentTag_def expandToTag_def
        collapseToEnd_def editing_def rendered_def linkedDoc_def testHost_def)
  from a b c d e f g show ?thesis by blast
qed

text \<open>
  What holds of the claim: a submitted value that passes \<^verbatim>\<open>validateURL\<close> and begins
  with letters, digits or underscores followed by \<^verbatim>\<open>://\<close> is returned unchanged
  (\<open>prepareLink_valid_word_scheme\<close>), \<^verbatim>\<open>addProtocol\<close> is idempotent and so is
  \<^verbatim>\<open>prepareLink\<close>, on every string (\<open>addProtocol_idem\<close>, \<open>prepareLink_idem\<close>).
\<close>

lemma prepareLink_scheme_examples:
  "prepareLink (js ''https://codex.so'') = js ''https://codex.so''"
  "prepareLink (prepareLink (js ''git+ssh://host/x'')) = prepareLink (js ''git+ssh://host/x'')"
  by code_simp+

section \<open>Properties of the list of known pages\<close>

text \<open>
  C6: the matching of the search box is not case-insensitive. The listener lowers the
  case of each name and leaves the query as typed, so a query with a capital letter finds
  no entry: with the pages Home and About, typing \<^verbatim>\<open>HO\<close> renders the empty list, where
  the claim has it return Home. The query \<^verbatim>\<open>ho\<close> returns Home alone.
\<close>

theorem searchKeyup_upper_case_query:
  "map entry (linkElements
      (searchKeyup testHost ((rendered linkedDoc)\<lparr>searchInput_value := js ''HO''\<rparr>))) = [] \<and>
   map entry (linkElements
      (searchKeyup testHost ((rendered linkedDoc)\<lparr>searchInput_value := js ''ho''\<rparr>))) = [homePage]"
  by code_simp

text \<open>An empty query, or one of white space only, renders the whole list in its order,
  whatever the host's lower case is.\<close>

lemma searchKeyup_blank:
  "trim (searchInput_value s) = [] \<Longrightarrow>
     map entry (linkElements (searchKeyup H s)) = pageLinks s"
  by (simp add: searchKeyup_def renderList_def comp_def)

subsection \<open>The loop over the pages\<close>

lemma forEachPage_rendered:
  "length els = n + length ps \<Longrightarrow> map entry (drop n els) = ps \<Longrightarrow>
   forEachPage h ps n els =
     Inr (take n els @ map (\<lambda>p. \<lparr>entry = p, selected_item = (Some (url p) = h)\<rparr>) ps)"
proof (induction ps arbitrary: n els)
  case Nil
  then show ?case by simp
next
  case (Cons p ps)
  from Cons.prems have n: "n < length els" by simp
  from Cons.prems n have e: "entry (els ! n) = p"
    by (metis Cons_nth_drop_Suc list.sel(1) list.simps(9) list.inject)
  let ?x = "\<lparr>entry = p, selected_item = (Some (url p) = h)\<rparr>"
  have upd: "(if Some (url p) = h
              then els[n := (els ! n)\<lparr>selected_item := True\<rparr>]
              else els[n := (els ! n)\<lparr>selected_item := False\<rparr>]) = els[n := ?x]"
    using e by (cases "els ! n") auto
  have l: "length (els[n := ?x]) = Suc n + length ps" using Cons.prems by simp
  have d: "map entry (drop (Suc n) (els[n := ?x])) = ps"
    using Cons.prems n by (simp add: Cons_nth_drop_Suc[symmetric])
  have "forEachPage h (p # ps) n els = forEachPage h ps (Suc n) (els[n := ?x])"
    using n upd by simp
  also have "\<dots> = Inr (take (Suc n) (els[n := ?x]) @
      map (\<lambda>p. \<lparr>entry = p, selected_item = (Some (url p) = h)\<rparr>) ps)"
    using Cons.IH[OF l d] .
  also have "take (Suc n) (els[n := ?x]) = take n els @ [?x]"
    using n by (simp add: take_Suc_conv_app_nth)
  finally show ?case by simp
qed

text \<open>After \<^verbatim>\<open>renderList(this.pageLinks)\<close> every index of the loop is in range: the
  TypeError is not reached from \<^verbatim>\<open>checkState\<close>.\<close>

lemma forEachPage_renderList:
  "forEachPage h ps 0 (map (\<lambda>each. \<lparr>entry = each, selected_item = False\<rparr>) ps) =
     Inr (map (\<lambda>p. \<lparr>entry = p, selected_item = (Some (url p) = h)\<rparr>) ps)"
  using forEachPage_rendered[of "map (\<lambda>each. \<lparr>entry = each, selected_item = False\<rparr>) ps" 0 ps h]
  by (simp add: comp_def)

section \<open>Properties of \<open>checkState\<close>\<close>

lemma checkState_None:
  assumes "findParentTag H s = None"
  shows "checkState H s =
    Inr (False,
      s\<lparr>searchInput_value := [],
        linkElements := map (\<lambda>p. \<lparr>entry = p, selected_item = False\<rparr>) (pageLinks s),
        button_unlink := False, button_active := False\<rparr>)"
  using assms
  by (simp add: checkState_def renderList_def findParentTag_def Let_def comp_def)

lemma checkState_Some:
  assumes "findParentTag H s = Some a"
  shows "checkState H s =
    Inr (True,
      s\<lparr>searchInput_value := [],
        linkElements :=
          map (\<lambda>p. \<lparr>entry = p,
                     selected_item = (href a = Some (url p) \<and> href a \<noteq> Some (js ''null''))\<rparr>)
            (pageLinks s),
        button_unlink := True, button_active := True,
        div_showed := True, input_showed := True, inputOpened := True,
        input_value := inputValue (if href a = Some (js ''null'') then Some [] else href a),
        selection := su_save H (world s) (selection s)\<rparr>)"
proof (cases "href a = Some (js ''null'')")
  case True
  with assms show ?thesis
    by (simp add: checkState_def renderList_def findParentTag_def openActions_def save_def
        Let_def comp_def)
next
  case False
  have eq: "(\<lambda>p. \<lparr>entry = p, selected_item = (Some (url p) = href a)\<rparr>) =
            (\<lambda>p. \<lparr>entry = p,
                     selected_item = (href a = Some (url p) \<and> href a \<noteq> Some (js ''null''))\<rparr>)"
    using False by (intro ext) auto
  from assms False show ?thesis
    by (simp add: checkState_def renderList_def findParentTag_def openActions_def save_def
        Let_def forEachPage_renderList eq split: option.split)
qed

lemma inputValue_href:
  "inputValue (if h = Some (js ''null'') then Some [] else h) =
     filter (\<lambda>c. c \<noteq> 0x0A \<and> c \<noteq> 0x0D)
       (case h of None \<Rightarrow> [] | Some v \<Rightarrow> if v = js ''null'' then [] else v)"
  by (simp add: inputValue_def split: option.split)

lemma linkedDoc_anchor:
  "findParentTag testHost (rendered linkedDoc) = Some \<lparr>element = 1, href = Some (js ''/about'')\<rparr>"
  by (simp add: findParentTag_def testHost_def rendered_def linkedDoc_def)

lemma lineBreakDoc_anchor:
  "findParentTag testHost (rendered lineBreakDoc) =
     Some \<lparr>element = 1, href = Some (js ''/a'' @ [0x0A] @ js ''b'')\<rparr>"
  by (simp add: findParentTag_def testHost_def rendered_def lineBreakDoc_def)

text \<open>
  C3, as the spec states it: \<^verbatim>\<open>checkState\<close> leaves the panel's open or closed state as
  it was. This fails when the panel is closed and the selection is inside a link: the
  branch for an anchor calls \<^verbatim>\<open>openActions()\<close>, which shows the panel and sets
  \<^verbatim>\<open>inputOpened\<close>.
\<close>

theorem checkState_changes_panel:
  "\<not> inputOpened (rendered linkedDoc) \<and>
   \<not> div_showed (rendered linkedDoc) \<and>
   (case checkState testHost (rendered linkedDoc) of
      Inl e \<Rightarrow> False
    | Inr (found, s') \<Rightarrow> found \<and> inputOpened s' \<and> div_showed s' \<and> input_showed s')"
  by (simp add: checkState_Some[OF linkedDoc_anchor]) (simp add: rendered_def)

text \<open>
  C3, amended: \<^verbatim>\<open>checkState\<close> always returns, with the answer whether the selection's
  ancestor is a link, and it never closes the panel: when the ancestor is a link the panel
  is open afterwards (\<^verbatim>\<open>inputOpened\<close> is set and the panel and its input are shown), and
  when it is not, the flag and the shown or hidden panel are what they were before. The
  input is not focused: \<^verbatim>\<open>checkState\<close> makes no call to the outside at all, and the
  document and the live selection are what they were.
\<close>

theorem checkState_opens_on_link:
  "\<exists>s'. checkState H s = Inr (findParentTag H s \<noteq> None, s') \<and>
     inputOpened s' = (inputOpened s \<or> findParentTag H s \<noteq> None) \<and>
     div_showed s' = (div_showed s \<or> findParentTag H s \<noteq> None) \<and>
     input_showed s' = (input_showed s \<or> findParentTag H s \<noteq> None) \<and>
     calls s' = calls s \<and>
     world s' = world s"
proof (cases "findParentTag H s")
  case None
  then show ?thesis by (simp add: checkState_None)
next
  case (Some a)
  then show ?thesis by (simp add: checkState_Some)
qed

theorem checkState_opens_on_link_witness:
  "(\<exists>s'. checkState testHost (rendered (linkedDoc\<lparr>link := None\<rparr>)) = Inr (False, s') \<and>
      \<not> inputOpened s' \<and> \<not> div_showed s' \<and> \<not> input_showed s' \<and>
      calls s' = [] \<and> world s' = linkedDoc\<lparr>link := None\<rparr>) \<and>
   (\<exists>s'. checkState testHost (rendered linkedDoc) = Inr (True, s') \<and>
      inputOpened s' \<and> div_showed s' \<and> input_showed s' \<and>
      calls s' = [] \<and> world s' = linkedDoc)"
proof -
  have f: "findParentTag testHost (rendered (linkedDoc\<lparr>link := None\<rparr>)) = None"
    by (simp add: findParentTag_def testHost_def rendered_def linkedDoc_def)
  have c: "\<And>d. \<not> inputOpened (rendered d)" "\<And>d. \<not> div_showed (rendered d)"
    "\<And>d. \<not> input_showed (rendered d)" "\<And>d. calls (rendered d) = []"
    "\<And>d. world (rendered d) = d"
    by (simp_all add: rendered_def)
  from checkState_opens_on_link[of testHost "rendered (linkedDoc\<lparr>link := None\<rparr>)"]
    checkState_opens_on_link[of testHost "rendered linkedDoc"] f linkedDoc_anchor c
  show ?thesis by simp
qed

text \<open>
  C4, as the spec states it: \<^verbatim>\<open>checkState\<close> populates the URL input with the anchor's
  \<^verbatim>\<open>href\<close>. This fails for an \<^verbatim>\<open>href\<close> with a line break in it: the link input is a
  text field, which removes line feeds and carriage returns from a value it is given, so
  for the \<^verbatim>\<open>href\<close> made of \<^verbatim>\<open>/a\<close>, a line feed and \<^verbatim>\<open>b\<close> the input holds
  \<^verbatim>\<open>/ab\<close>.
\<close>

theorem checkState_input_drops_line_breaks:
  "findParentTag testHost (rendered lineBreakDoc) =
     Some \<lparr>element = 1, href = Some (js ''/a'' @ [0x0A] @ js ''b'')\<rparr> \<and>
   (case checkState testHost (rendered lineBreakDoc) of
      Inl e \<Rightarrow> False
    | Inr (found, s') \<Rightarrow>
        found \<and> input_value s' = js ''/ab'' \<and> input_value s' \<noteq> js ''/a'' @ [0x0A] @ js ''b'')"
  by (simp add: lineBreakDoc_anchor checkState_Some[OF lineBreakDoc_anchor])
    (simp add: inputValue_def js_def)

text \<open>
  C4, amended: when the selection's ancestor is a link, \<^verbatim>\<open>checkState\<close> returns
  \<^verbatim>\<open>true\<close> and assigns the anchor's \<^verbatim>\<open>href\<close> to the link input (the empty string
  when the attribute is the string \<^verbatim>\<open>null\<close>), so that the input holds the \<^verbatim>\<open>href\<close>
  without its line feeds and carriage returns: the \<^verbatim>\<open>href\<close> itself when it has none,
  and the empty string when the attribute is absent or is \<^verbatim>\<open>null\<close>. It leaves one list
  item per known page, in the order of the pages, of which exactly those are marked whose
  \<^verbatim>\<open>url\<close> equals the \<^verbatim>\<open>href\<close> as the attribute has it, none being marked when the
  \<^verbatim>\<open>href\<close> is \<^verbatim>\<open>null\<close>. The marks do not depend on the items before the call, so
  every earlier highlight is gone; and when the \<^verbatim>\<open>href\<close> is absent, is \<^verbatim>\<open>null\<close> or is
  no page's \<^verbatim>\<open>url\<close>, no item is marked.
\<close>

theorem checkState_fills_input_and_marks:
  assumes "findParentTag H s = Some a"
  shows "\<exists>s'. checkState H s = Inr (True, s') \<and>
     input_value s' =
       filter (\<lambda>c. c \<noteq> 0x0A \<and> c \<noteq> 0x0D)
         (case href a of None \<Rightarrow> [] | Some h \<Rightarrow> if h = js ''null'' then [] else h) \<and>
     (\<forall>h. href a = Some h \<and> h \<noteq> js ''null'' \<and> list_all (\<lambda>c. c \<noteq> 0x0A \<and> c \<noteq> 0x0D) h
        \<longrightarrow> input_value s' = h) \<and>
     (href a = None \<or> href a = Some (js ''null'') \<longrightarrow> input_value s' = []) \<and>
     linkElements s' =
       map (\<lambda>p. \<lparr>entry = p,
                  selected_item = (href a = Some (url p) \<and> href a \<noteq> Some (js ''null''))\<rparr>)
         (pageLinks s) \<and>
     pageLinks s' = pageLinks s \<and>
     ((href a = None \<or> href a = Some (js ''null'') \<or>
       href a \<notin> set (map (\<lambda>p. Some (url p)) (pageLinks s)))
        \<longrightarrow> list_all (\<lambda>item. \<not> selected_item item) (linkElements s'))"
proof -
  let ?s' = "s\<lparr>searchInput_value := [],
        linkElements :=
          map (\<lambda>p. \<lparr>entry = p,
                     selected_item = (href a = Some (url p) \<and> href a \<noteq> Some (js ''null''))\<rparr>)
            (pageLinks s),
        button_unlink := True, button_active := True,
        div_showed := True, input_showed := True, inputOpened := True,
        input_value := inputValue (if href a = Some (js ''null'') then Some [] else href a),
        selection := su_save H (world s) (selection s)\<rparr>"
  have r: "checkState H s = Inr (True, ?s')" using assms by (rule checkState_Some)
  have i: "input_value ?s' =
       filter (\<lambda>c. c \<noteq> 0x0A \<and> c \<noteq> 0x0D)
         (case href a of None \<Rightarrow> [] | Some h \<Rightarrow> if h = js ''null'' then [] else h)"
    by (simp add: inputValue_href)
  have c: "\<forall>h. href a = Some h \<and> h \<noteq> js ''null'' \<and> list_all (\<lambda>c. c \<noteq> 0x0A \<and> c \<noteq> 0x0D) h
        \<longrightarrow> input_value ?s' = h"
    unfolding i by (auto simp: list_all_iff)
  have e: "href a = None \<or> href a = Some (js ''null'') \<longrightarrow> input_value ?s' = []"
    unfolding i by auto
  have m: "(href a = None \<or> href a = Some (js ''null'') \<or>
       href a \<notin> set (map (\<lambda>p. Some (url p)) (pageLinks s)))
        \<longrightarrow> list_all (\<lambda>item. \<not> selected_item item) (linkElements ?s')"
    by (auto simp: list_all_iff)
  show ?thesis
    using r i c e m by (intro exI[of _ ?s']) simp
qed

theorem checkState_fills_input_and_marks_witness:
  "findParentTag testHost (rendered linkedDoc) = Some \<lparr>element = 1, href = Some (js ''/about'')\<rparr> \<and>
   (\<exists>s'. checkState testHost (rendered linkedDoc) = Inr (True, s') \<and>
      input_value s' = js ''/about'' \<and>
      linkElements s' = [\<lparr>entry = homePage, selected_item = False\<rparr>,
                         \<lparr>entry = aboutPage, selected_item = True\<rparr>])"
proof -
  have p: "pageLinks (rendered linkedDoc) = [homePage, aboutPage]" by (simp add: rendered_def)
  have n: "js ''/about'' \<noteq> js ''null''" by (simp add: js_def)
  have l: "list_all (\<lambda>c. c \<noteq> 0x0A \<and> c \<noteq> 0x0D) (js ''/about'')" by (simp add: js_def)
  have u: "url homePage \<noteq> js ''/about''" "url aboutPage = js ''/about''"
    by (simp_all add: homePage_def aboutPage_def js_def)
  from checkState_fills_input_and_marks[OF linkedDoc_anchor]
  obtain s' where s': "checkState testHost (rendered linkedDoc) = Inr (True, s')"
    and i: "\<forall>h. Some (js ''/about'') = Some h \<and> h \<noteq> js ''null'' \<and>
          list_all (\<lambda>c. c \<noteq> 0x0A \<and> c \<noteq> 0x0D) h \<longrightarrow> input_value s' = h"
    and e: "linkElements s' =
       map (\<lambda>p. \<lparr>entry = p,
                  selected_item = (Some (js ''/about'') = Some (url p) \<and>
                    Some (js ''/about'') \<noteq> Some (js ''null''))\<rparr>)
         (pageLinks (rendered linkedDoc))"
    by auto
  from i n l have "input_value s' = js ''/about''" by blast
  moreover from e p n u have "linkElements s' = [\<lparr>entry = homePage, selected_item = False\<rparr>,
                         \<lparr>entry = aboutPage, selected_item = True\<rparr>]"
    by auto
  ultimately show ?thesis using s' linkedDoc_anchor by blast
qed

section \<open>Properties of opening and closing the panel\<close>

text \<open>
  C7, as the spec states it: whenever the panel goes from closed to open, the stored page
  list is a fresh read of the external list. This fails: the tool was rendered while Home
  and About were stored, the stored item now holds Home alone, and a click on the icon
  opens the panel with the two pages still in \<^verbatim>\<open>pageLinks\<close>. Neither
  \<^verbatim>\<open>toggleActions\<close> nor \<^verbatim>\<open>openActions\<close> reads the storage.
\<close>

theorem pageLinks_stale_on_open:
  "\<not> inputOpened (rendered linkedDoc) \<and>
   inputOpened (toggleActions testHost (rendered linkedDoc)) \<and>
   storedLinks testHost (Some (js ''[home]'')) = Inr [homePage] \<and>
   pageLinks (toggleActions testHost (rendered linkedDoc)) = [homePage, aboutPage] \<and>
   Inr (pageLinks (toggleActions testHost (rendered linkedDoc))) \<noteq>
     storedLinks testHost (Some (js ''[home]''))"
  by (simp add: toggleActions_def openActions_def perform_def rendered_def storedLinks_def
      testHost_def js_def)

text \<open>
  C7, amended: the known-pages list is read from its external source each time
  \<^verbatim>\<open>renderActions\<close> builds the panel: the call stores the list read at that time (the
  empty list for an unset or empty item), or ends with the error of the parse. Opening the
  panel, by \<^verbatim>\<open>openActions\<close> or by \<^verbatim>\<open>toggleActions\<close>, leaves the stored list as it is.
\<close>

theorem pageLinks_read_by_renderActions:
  "(case storedLinks H existingLinks of
      Inl e \<Rightarrow> renderActions H existingLinks s = Inl e
    | Inr links \<Rightarrow> (\<exists>s'. renderActions H existingLinks s = Inr s' \<and> pageLinks s' = links)) \<and>
   pageLinks (openActions H needFocus s) = pageLinks s \<and>
   pageLinks (toggleActions H s) = pageLinks s"
  by (simp add: renderActions_def renderList_def openActions_def toggleActions_def
      closeActions_def restore_def su_restore_def removeFakeBackground_def perform_def
      clearSaved_def Let_def split: sum.split option.split)

theorem pageLinks_read_by_renderActions_witness:
  "(\<exists>s'. renderActions testHost (Some (js ''[home]'')) (rendered linkedDoc) = Inr s' \<and>
      pageLinks s' = [homePage]) \<and>
   renderActions testHost (Some (js ''[about]'')) (rendered linkedDoc) = Inl SyntaxError \<and>
   pageLinks (openActions testHost True (rendered linkedDoc)) = [homePage, aboutPage]"
proof -
  have a: "storedLinks testHost (Some (js ''[home]'')) = Inr [homePage]"
    by (simp add: storedLinks_def testHost_def js_def)
  have b: "storedLinks testHost (Some (js ''[about]'')) = Inl SyntaxError"
    by (simp add: storedLinks_def testHost_def js_def)
  have p: "pageLinks (rendered linkedDoc) = [homePage, aboutPage]" by (simp add: rendered_def)
  from pageLinks_read_by_renderActions[of testHost "Some (js ''[home]'')" "rendered linkedDoc" True]
    pageLinks_read_by_renderActions[of testHost "Some (js ''[about]'')" "rendered linkedDoc" True]
    a b p
  show ?thesis by simp
qed

subsection \<open>What the selection guard keeps\<close>

lemma selection_perform [simp]: "selection (perform H a s) = selection s"
  by (simp add: perform_def)

lemma selection_su_restore [simp]: "selection (su_restore H u s) = selection s"
  by (simp add: su_restore_def split: option.split)

lemma selection_restore [simp]: "selection (restore H s) = selection s"
  by (simp add: restore_def)

lemma saved_removeFakeBackground [simp]:
  "savedSelectionRange (selection (removeFakeBackground H s)) = savedSelectionRange (selection s)"
  by (simp add: removeFakeBackground_def)

lemma opened_restore [simp]: "inputOpened (restore H s) = inputOpened s"
  by (simp add: restore_def su_restore_def perform_def split: option.split)

lemma opened_removeFakeBackground [simp]:
  "inputOpened (removeFakeBackground H s) = inputOpened s"
  by (simp add: removeFakeBackground_def perform_def)

lemma closeActions_saved:
  "savedSelectionRange (selection (closeActions H b s)) =
     (if b then None else savedSelectionRange (selection s))"
  by (simp add: closeActions_def clearSaved_def Let_def)

lemma closeActions_closed: "\<not> inputOpened (closeActions H b s)"
  by (simp add: closeActions_def Let_def)

text \<open>
  C8, as the spec states it: a close by a click on the icon of the open panel leaves the
  stored snapshot in place. This fails when the panel is open on a link, the state
  \<^verbatim>\<open>checkState\<close> brings about: the click hands \<^verbatim>\<open>surround\<close> a range, the restored
  selection is inside the link, and the branch for the unlink icon runs
  \<^verbatim>\<open>closeActions()\<close> with its default \<^verbatim>\<open>true\<close>. The panel is closed and the snapshot
  is gone.
\<close>

theorem surround_on_link_clears_snapshot:
  "inputOpened (editing []) \<and>
   savedSelectionRange (selection (editing [])) = Some (Range 1) \<and>
   (case surround testHost (Some (Range 1)) (editing []) of
      Inl e \<Rightarrow> False
    | Inr s' \<Rightarrow> savedSelectionRange (selection s') = None \<and> \<not> inputOpened s')"
proof -
  define c where "c = closeActions testHost True (unlink testHost (expandToTag testHost
      \<lparr>element = 1, href = Some (js ''/about'')\<rparr>
      (removeFakeBackground testHost (restore testHost (editing [])))))"
  have o: "inputOpened (editing [])"
    and v: "savedSelectionRange (selection (editing [])) = Some (Range 1)"
    by (simp_all add: editing_def)
  have f: "findParentTag testHost (removeFakeBackground testHost (restore testHost (editing []))) =
      Some \<lparr>element = 1, href = Some (js ''/about'')\<rparr>"
    by (simp add: findParentTag_def restore_def su_restore_def perform_def
        removeFakeBackground_def editing_def rendered_def linkedDoc_def testHost_def)
  have w: "link (world c) = None"
    by (simp add: c_def closeActions_def clearSaved_def unlink_def expandToTag_def perform_def
        restore_def su_restore_def removeFakeBackground_def Let_def
        editing_def rendered_def linkedDoc_def testHost_def)
  have n: "findParentTag testHost c = None"
    using w by (simp add: findParentTag_def testHost_def)
  have sv: "savedSelectionRange (selection c) = None" by (simp add: c_def closeActions_saved)
  have cl: "\<not> inputOpened c" by (simp add: c_def closeActions_closed)
  have "surround testHost (Some (Range 1)) (editing []) =
      (case checkState testHost c of Inl e \<Rightarrow> Inl e | Inr (b, s) \<Rightarrow> Inr (emit ToolbarClose s))"
    using o f by (simp add: surround_def Let_def c_def)
  then have "surround testHost (Some (Range 1)) (editing []) =
      Inr (emit ToolbarClose (c\<lparr>searchInput_value := [],
        linkElements := map (\<lambda>p. \<lparr>entry = p, selected_item = False\<rparr>) (pageLinks c),
        button_unlink := False, button_active := False\<rparr>))"
    by (simp add: checkState_None[OF n])
  then show ?thesis
    using o v sv cl by (simp add: emit_def)
qed

text \<open>
  C8, amended: \<^verbatim>\<open>closeActions\<close> always closes the panel, and the stored Selection
  Snapshot is cleared exactly when its parameter is \<^verbatim>\<open>true\<close>; with \<^verbatim>\<open>false\<close> the
  snapshot is what it was. \<^verbatim>\<open>clear()\<close> passes \<^verbatim>\<open>true\<close>, so a close by the external
  callback discards the snapshot. A click on the icon of the open panel leaves the
  snapshot in place when it goes through \<^verbatim>\<open>toggleActions\<close>, which passes \<^verbatim>\<open>false\<close>:
  the range is \<^verbatim>\<open>null\<close>, or the restored selection is in no link. When the restored
  selection is inside a link, the click unlinks and closes with \<^verbatim>\<open>true\<close>: the snapshot
  is cleared before \<^verbatim>\<open>checkState\<close> runs, and stays cleared with the panel closed when
  \<^verbatim>\<open>checkState\<close> finds no link any more.
\<close>

theorem closeActions_snapshot:
  "savedSelectionRange (selection (closeActions H clearSavedSelection s)) =
     (if clearSavedSelection then None else savedSelectionRange (selection s)) \<and>
   \<not> inputOpened (closeActions H clearSavedSelection s) \<and>
   savedSelectionRange (selection (clear H s)) = None \<and>
   \<not> inputOpened (clear H s) \<and>
   (inputOpened s \<longrightarrow>
      toggleActions H s = closeActions H False s \<and>
      savedSelectionRange (selection (toggleActions H s)) = savedSelectionRange (selection s) \<and>
      \<not> inputOpened (toggleActions H s)) \<and>
   (inputOpened s \<and> (rng = None \<or> findParentTag H (removeFakeBackground H (restore H s)) = None) \<longrightarrow>
      (\<exists>s'. surround H rng s = Inr s' \<and>
         savedSelectionRange (selection s') = savedSelectionRange (selection s) \<and>
         \<not> inputOpened s')) \<and>
   (inputOpened s \<and> findParentTag H (removeFakeBackground H (restore H s)) = Some a \<longrightarrow>
      (let closed = closeActions H True
             (unlink H (expandToTag H a (removeFakeBackground H (restore H s))))
       in savedSelectionRange (selection closed) = None \<and>
          \<not> inputOpened closed \<and>
          surround H (Some r) s =
            (case checkState H closed of
               Inl e \<Rightarrow> Inl e
             | Inr (b, s') \<Rightarrow> Inr (emit ToolbarClose s')) \<and>
          (findParentTag H closed = None \<longrightarrow>
             (\<exists>s'. surround H (Some r) s = Inr s' \<and>
                savedSelectionRange (selection s') = None \<and> \<not> inputOpened s'))))"
proof -
  have t: "inputOpened s \<Longrightarrow> toggleActions H s = closeActions H False s"
    by (simp add: toggleActions_def)
  have sr: "inputOpened s \<Longrightarrow>
      rng = None \<or> findParentTag H (removeFakeBackground H (restore H s)) = None \<Longrightarrow>
      \<exists>s'. surround H rng s = Inr s' \<and>
         savedSelectionRange (selection s') = savedSelectionRange (selection s) \<and>
         \<not> inputOpened s'"
    by (cases rng)
      (simp_all add: surround_def toggleActions_def closeActions_saved closeActions_closed Let_def)
  let ?c = "closeActions H True (unlink H (expandToTag H a (removeFakeBackground H (restore H s))))"
  have su: "inputOpened s \<Longrightarrow> findParentTag H (removeFakeBackground H (restore H s)) = Some a \<Longrightarrow>
      surround H (Some r) s =
        (case checkState H ?c of Inl e \<Rightarrow> Inl e | Inr (b, s') \<Rightarrow> Inr (emit ToolbarClose s'))"
    by (simp add: surround_def Let_def)
  have sn: "findParentTag H ?c = None \<Longrightarrow>
      (case checkState H ?c of Inl e \<Rightarrow> Inl e | Inr (b, s') \<Rightarrow> Inr (emit ToolbarClose s')) =
        Inr (emit ToolbarClose (?c\<lparr>searchInput_value := [],
          linkElements := map (\<lambda>p. \<lparr>entry = p, selected_item = False\<rparr>) (pageLinks ?c),
          button_unlink := False, button_active := False\<rparr>))"
    by (simp add: checkState_None)
  have un: "inputOpened s \<and> findParentTag H (removeFakeBackground H (restore H s)) = Some a \<longrightarrow>
      (let closed = ?c
       in savedSelectionRange (selection closed) = None \<and>
          \<not> inputOpened closed \<and>
          surround H (Some r) s =
            (case checkState H closed of
               Inl e \<Rightarrow> Inl e
             | Inr (b, s') \<Rightarrow> Inr (emit ToolbarClose s')) \<and>
          (findParentTag H closed = None \<longrightarrow>
             (\<exists>s'. surround H (Some r) s = Inr s' \<and>
                savedSelectionRange (selection s') = None \<and> \<not> inputOpened s')))"
    unfolding Let_def
  proof (intro impI conjI)
    assume h: "inputOpened s \<and> findParentTag H (removeFakeBackground H (restore H s)) = Some a"
    show "savedSelectionRange (selection ?c) = None" by (simp add: closeActions_saved)
    show "\<not> inputOpened ?c" by (rule closeActions_closed)
    show "surround H (Some r) s =
        (case checkState H ?c of Inl e \<Rightarrow> Inl e | Inr (b, s') \<Rightarrow> Inr (emit ToolbarClose s'))"
      using h su by blast
    assume n: "findParentTag H ?c = None"
    from h su sn[OF n] have "surround H (Some r) s =
        Inr (emit ToolbarClose (?c\<lparr>searchInput_value := [],
          linkElements := map (\<lambda>p. \<lparr>entry = p, selected_item = False\<rparr>) (pageLinks ?c),
          button_unlink := False, button_active := False\<rparr>))"
      by simp
    then show "\<exists>s'. surround H (Some r) s = Inr s' \<and>
        savedSelectionRange (selection s') = None \<and> \<not> inputOpened s'"
      by (simp add: emit_def closeActions_saved closeActions_closed)
  qed
  show ?thesis
    using t sr un by (simp add: closeActions_saved closeActions_closed clear_def)
qed

theorem closeActions_snapshot_witness:
  "inputOpened (editing []) \<and>
   savedSelectionRange (selection (editing [])) = Some (Range 1) \<and>
   savedSelectionRange (selection (clear testHost (editing []))) = None \<and>
   savedSelectionRange (selection (toggleActions testHost (editing []))) = Some (Range 1) \<and>
   \<not> inputOpened (toggleActions testHost (editing [])) \<and>
   (\<exists>s'. surround testHost None (editing []) = Inr s' \<and>
      savedSelectionRange (selection s') = Some (Range 1) \<and> \<not> inputOpened s') \<and>
   findParentTag testHost (removeFakeBackground testHost (restore testHost (editing []))) =
      Some \<lparr>element = 1, href = Some (js ''/about'')\<rparr> \<and>
   savedSelectionRange (selection (closeActions testHost True
      (unlink testHost (expandToTag testHost \<lparr>element = 1, href = Some (js ''/about'')\<rparr>
         (removeFakeBackground testHost (restore testHost (editing []))))))) = None"
proof -
  have o: "inputOpened (editing [])" by (simp add: editing_def)
  have v: "savedSelectionRange (selection (editing [])) = Some (Range 1)" by (simp add: editing_def)
  have f: "findParentTag testHost (removeFakeBackground testHost (restore testHost (editing []))) =
      Some \<lparr>element = 1, href = Some (js ''/about'')\<rparr>"
    by (simp add: findParentTag_def restore_def su_restore_def perform_def
        removeFakeBackground_def editing_def rendered_def linkedDoc_def testHost_def)
  from closeActions_snapshot[of testHost True "editing []" None
      "\<lparr>element = 1, href = Some (js ''/about'')\<rparr>" "Range 1"]
    closeActions_snapshot[of testHost False "editing []" None
      "\<lparr>element = 1, href = Some (js ''/about'')\<rparr>" "Range 1"] o v f
  show ?thesis by (simp add: Let_def)
qed

section \<open>Properties of a submit\<close>

subsection \<open>Calls to the notifier\<close>

lemma notifications_perform [simp]: "notifications (perform H a s) = notifications s"
  by (simp add: notifications_def perform_def)

lemma notifications_emit [simp]:
  "notifications (emit c s) = notifications s @ (if isNotification c then [c] else [])"
  by (simp add: notifications_def emit_def)

lemma notifications_su_restore [simp]: "notifications (su_restore H u s) = notifications s"
  by (simp add: su_restore_def split: option.split)

lemma notifications_restore [simp]: "notifications (restore H s) = notifications s"
  by (simp add: restore_def)

lemma notifications_removeFakeBackground [simp]:
  "notifications (removeFakeBackground H s) = notifications s"
  by (simp add: removeFakeBackground_def notifications_def perform_def)

lemma notifications_closeActions [simp]: "notifications (closeActions H b s) = notifications s"
proof -
  have upd: "\<And>t :: 'a link_tool.
      notifications (t\<lparr>input_showed := False, div_showed := False, input_value := []\<rparr>) =
        notifications t"
    by (simp add: notifications_def)
  have cl: "\<And>t :: 'a link_tool. notifications (clearSaved t) = notifications t"
    by (simp add: notifications_def clearSaved_def)
  have op: "\<And>(t :: 'a link_tool) b. notifications (t\<lparr>inputOpened := b\<rparr>) = notifications t"
    by (simp add: notifications_def)
  show ?thesis by (simp add: closeActions_def Let_def upd cl op)
qed

lemma notifications_unlink [simp]: "notifications (unlink H s) = notifications s"
  by (simp add: unlink_def)

lemma notifications_insertLink [simp]: "notifications (insertLink H l s) = notifications s"
  by (simp add: insertLink_def expandToTag_def Let_def split: option.split)

lemma notifications_collapseToEnd [simp]: "notifications (collapseToEnd H s) = notifications s"
  by (simp add: collapseToEnd_def)

lemma enterPressed_empty_quiet:
  assumes "(if isExisting then data else input_value s) = []"
  shows "notifications (enterPressed H isExisting data s) = notifications s"
proof -
  have v: "validateURL []" by (simp add: validateURL_def)
  have t: "trim [] = []" by (simp add: trim_def)
  show ?thesis using assms v t by (simp add: enterPressed_def Let_def)
qed

lemma enterPressed_blank_notifies:
  assumes "(if isExisting then data else input_value s) \<noteq> []"
    and "trim (if isExisting then data else input_value s) = []"
  shows "notifications (enterPressed H isExisting data s) =
           notifications s @ [NotifierShow (js ''Pasted link is not valid.'') (js ''error'')]"
proof -
  from assms have "\<not> validateURL (if isExisting then data else input_value s)"
    by (rule blank_invalid)
  with assms show ?thesis by (simp add: enterPressed_def Let_def)
qed

subsection \<open>An invalid value\<close>

text \<open>
  C1, as the spec states it: every submitted value that fails validation is reported and
  nothing else changes. This fails for a value of white space only: Enter pressed on the
  open panel with a single space in the input takes the branch for a blank value first,
  which restores the selection, unlinks, closes the panel, empties the input and clears the
  saved selection; the notification follows.
\<close>

theorem enterPressed_blank_changes_state:
  "\<not> validateURL (js '' '') \<and>
   inputOpened (editing (js '' '')) \<and>
   \<not> inputOpened (enterPressed testHost False [] (editing (js '' ''))) \<and>
   input_value (enterPressed testHost False [] (editing (js '' ''))) = [] \<and>
   savedSelectionRange (selection (enterPressed testHost False [] (editing (js '' '')))) = None \<and>
   calls (enterPressed testHost False [] (editing (js '' ''))) =
     [Dom (AddRange (Range 1)), Dom (ExecCommand Unlink), PreventDefault,
      NotifierShow (js ''Pasted link is not valid.'') (js ''error'')]"
proof -
  have v: "\<not> validateURL (js '' '')" by code_simp
  have t: "trim (js '' '') = []" by code_simp
  have i: "input_value (editing (js '' '')) = js '' ''" by (simp add: editing_def)
  show ?thesis
    using v t i
    by (simp add: enterPressed_def Let_def emit_def restore_def su_restore_def perform_def
        unlink_def closeActions_def clearSaved_def editing_def rendered_def)
qed

text \<open>
  C1, amended: for every submitted value that contains a white space character and is
  not white space only, \<^verbatim>\<open>enterPressed\<close> shows the error notification
  \<^verbatim>\<open>Pasted link is not valid.\<close> and changes nothing else: the state afterwards is the
  state before with that one call added, so the panel, the input, the saved selection,
  the live selection and the document are as they were, and nothing is unlinked or linked.
\<close>

theorem enterPressed_invalid_aborts:
  assumes "value = (if isExisting then data else input_value s)"
    and "\<not> validateURL value" and "trim value \<noteq> []"
  shows "enterPressed H isExisting data s =
           s\<lparr>calls := calls s @ [NotifierShow (js ''Pasted link is not valid.'') (js ''error'')]\<rparr>"
  using assms by (simp add: enterPressed_def emit_def Let_def)

theorem enterPressed_invalid_aborts_witness:
  "\<not> validateURL (js ''bad url'') \<and> trim (js ''bad url'') \<noteq> [] \<and>
   enterPressed testHost False [] (editing (js ''bad url'')) =
     (editing (js ''bad url''))
       \<lparr>calls := [NotifierShow (js ''Pasted link is not valid.'') (js ''error'')]\<rparr>"
proof -
  have v: "\<not> validateURL (js ''bad url'')" by code_simp
  have t: "trim (js ''bad url'') \<noteq> []" by code_simp
  have i: "js ''bad url'' = (if False then [] else input_value (editing (js ''bad url'')))"
    by (simp add: editing_def)
  have c: "calls (editing (js ''bad url'')) = []" by (simp add: editing_def rendered_def)
  from enterPressed_invalid_aborts[OF i v t, of testHost] v t c show ?thesis by simp
qed

subsection \<open>An empty value\<close>

text \<open>The calls of a state are never dropped: each step adds to their end.\<close>

lemma calls_perform: "calls (perform H a s) = calls s @ [Dom a]"
  by (simp add: perform_def)

lemma calls_emit: "calls (emit c s) = calls s @ [c]"
  by (simp add: emit_def)

lemma calls_su_restore: "\<exists>xs. calls (su_restore H u s) = calls s @ xs"
  by (simp add: su_restore_def calls_perform split: option.split)

lemma calls_restore: "\<exists>xs. calls (restore H s) = calls s @ xs"
  by (simp add: restore_def calls_su_restore)

lemma calls_removeFakeBackground: "\<exists>xs. calls (removeFakeBackground H s) = calls s @ xs"
  by (simp add: removeFakeBackground_def calls_perform)

lemma calls_closeActions: "\<exists>xs. calls (closeActions H b s) = calls s @ xs"
proof -
  obtain xs where 1: "calls (restore H s) = calls s @ xs" using calls_restore by blast
  obtain ys where 2: "calls (removeFakeBackground H (restore H s)) = calls (restore H s) @ ys"
    using calls_removeFakeBackground by blast
  obtain zs where 3: "calls (su_restore H (su_save H (world s) newSelectionUtils)
      (removeFakeBackground H (restore H s))) = calls (removeFakeBackground H (restore H s)) @ zs"
    using calls_su_restore by blast
  show ?thesis
    by (simp add: closeActions_def Let_def clearSaved_def 1 2 3)
qed

lemma calls_insertLink:
  "\<exists>xs. calls (insertLink H l s) = calls s @ xs @ [Dom (ExecCommand (CreateLink l))]"
  by (simp add: insertLink_def expandToTag_def calls_perform Let_def split: option.split)

text \<open>Whatever the browser and the state, a submit of the empty string ends with the
  insertion of a link to \<^verbatim>\<open>http://\<close> and the calls that follow it in the source.\<close>

lemma enterPressed_empty_links:
  assumes "(if isExisting then data else input_value s) = []"
  shows "\<exists>xs. made s (enterPressed H isExisting data s) =
           xs @ [Dom (ExecCommand (CreateLink (js ''http://''))),
                 PreventDefault, StopPropagation, StopImmediatePropagation,
                 Dom CollapseToEnd, InlineToolbarClose]"
proof -
  have p: "prepareLink [] = js ''http://''" by code_simp
  have v: "validateURL []" by (simp add: validateURL_def)
  have t: "trim [] = []" by (simp add: trim_def)
  define s1 where "s1 = closeActions H True (emit PreventDefault (unlink H (restore H s)))"
  define s2 where "s2 = removeFakeBackground H (restore H s1)"
  have e: "enterPressed H isExisting data s =
      emit InlineToolbarClose (collapseToEnd H (emit StopImmediatePropagation
        (emit StopPropagation (emit PreventDefault (insertLink H (js ''http://'') s2)))))"
    using assms p v t by (simp add: enterPressed_def Let_def s1_def s2_def)
  obtain a where a: "calls (restore H s) = calls s @ a" using calls_restore by blast
  obtain b where b: "calls s1 = calls (emit PreventDefault (unlink H (restore H s))) @ b"
    unfolding s1_def using calls_closeActions by blast
  obtain c where c: "calls (restore H s1) = calls s1 @ c" using calls_restore by blast
  obtain d where d: "calls s2 = calls (restore H s1) @ d"
    unfolding s2_def using calls_removeFakeBackground by blast
  obtain f where f: "calls (insertLink H (js ''http://'') s2) =
      calls s2 @ f @ [Dom (ExecCommand (CreateLink (js ''http://'')))]"
    using calls_insertLink by blast
  show ?thesis
    unfolding e made_def
    by (simp add: calls_emit calls_perform collapseToEnd_def unlink_def a b c d f)
qed

text \<open>
  C2: a submit of the empty string does more than unlink and close. Enter pressed on the
  open panel with an empty input restores the selection, unlinks and suppresses the
  default action, and \<^verbatim>\<open>closeActions\<close> closes the panel; the first \<^verbatim>\<open>if\<close> does not
  return, the empty string passes \<^verbatim>\<open>validateURL\<close> and is prepared to \<^verbatim>\<open>http://\<close>,
  and \<^verbatim>\<open>insertLink\<close> links the text again, to \<^verbatim>\<open>http://\<close>, before the inline toolbar is
  closed. The claim has no link insertion after the unlink.
\<close>

theorem enterPressed_empty_inserts_link:
  "made (editing []) (enterPressed testHost False [] (editing [])) =
     [Dom (AddRange (Range 1)), Dom (ExecCommand Unlink), PreventDefault,
      Dom (ExecCommand (CreateLink (js ''http://''))),
      PreventDefault, StopPropagation, StopImmediatePropagation,
      Dom CollapseToEnd, InlineToolbarClose] \<and>
   link (world (enterPressed testHost False [] (editing []))) =
     Some \<lparr>element = 1, href = Some (js ''http://'')\<rparr>"
proof -
  have p: "prepareLink [] = js ''http://''" by code_simp
  have v: "validateURL []" by (simp add: validateURL_def)
  have t: "trim [] = []" by (simp add: trim_def)
  show ?thesis
    using p v t
    by (simp add: made_def enterPressed_def Let_def emit_def restore_def su_restore_def
        perform_def unlink_def closeActions_def clearSaved_def removeFakeBackground_def
        insertLink_def findParentTag_def expandToTag_def collapseToEnd_def
        editing_def rendered_def linkedDoc_def testHost_def)
qed

subsection \<open>Validation of the empty and the blank value\<close>

text \<open>
  C10: \<^verbatim>\<open>validateURL\<close> accepts the empty string and rejects a string exactly when one
  of its characters is white space. A submit whose value is the empty string makes no call
  to the notifier. A submit whose value is not empty and is white space only fails the
  validation and makes one call to the notifier, with the message
  \<^verbatim>\<open>Pasted link is not valid.\<close> and the style \<^verbatim>\<open>error\<close>.
\<close>

theorem validateURL_empty_and_blank:
  "validateURL [] \<and>
   (validateURL str \<longleftrightarrow> \<not> (\<exists>c \<in> set str. isWhiteSpace c)) \<and>
   ((if isExisting then data else input_value s) = [] \<longrightarrow>
      notifications (enterPressed H isExisting data s) = notifications s) \<and>
   ((if isExisting then data else input_value s) \<noteq> [] \<and>
    trim (if isExisting then data else input_value s) = [] \<longrightarrow>
      \<not> validateURL (if isExisting then data else input_value s) \<and>
      notifications (enterPressed H isExisting data s) =
        notifications s @ [NotifierShow (js ''Pasted link is not valid.'') (js ''error'')])"
  using enterPressed_empty_quiet[of isExisting data s H]
    enterPressed_blank_notifies[of isExisting data s H]
    blank_invalid[of "if isExisting then data else input_value s"]
  by (simp add: validateURL_def list_ex_iff)

theorem validateURL_empty_and_blank_witness:
  "notifications (enterPressed testHost False [] (editing [])) = [] \<and>
   js '' '' \<noteq> [] \<and> trim (js '' '') = [] \<and> \<not> validateURL (js '' '') \<and>
   notifications (enterPressed testHost False [] (editing (js '' ''))) =
     [NotifierShow (js ''Pasted link is not valid.'') (js ''error'')] \<and>
   notifications (enterPressed testHost True (js '' '') (editing [])) =
     [NotifierShow (js ''Pasted link is not valid.'') (js ''error'')]"
proof -
  have n: "\<And>x. notifications (editing x) = []"
    by (simp add: notifications_def editing_def rendered_def)
  have i: "\<And>x. input_value (editing x) = x" by (simp add: editing_def)
  have b: "js '' '' \<noteq> []" by (simp add: js_def)
  have t: "trim (js '' '') = []" by code_simp
  from validateURL_empty_and_blank[of "[]" False "[]" "editing []" testHost]
    validateURL_empty_and_blank[of "[]" False "[]" "editing (js '' '')" testHost]
    validateURL_empty_and_blank[of "[]" True "js '' ''" "editing []" testHost]
    n i b t
  show ?thesis by simp
qed

end
